theory Spec2Isabelle
  imports Complex_Main "HOL-Library.AList" "HOL-Library.Multiset"
begin

section \<open>Python values, dictionaries and exceptions\<close>

text \<open>
  The program passes WHOIS data around as Python dictionaries from strings to arbitrary
  values (\<^verbatim>\<open>WhoisResult = Dict[str, Any]\<close>). A dictionary is an association list in
  insertion order; a well-formed one has each key once. Strings are lists of 8-bit
  characters, read as the code points 0 to 255. Python floats (the clock, the timestamps
  of cache entries) are idealised as real numbers. The one value that is no JSON value is
  a \<^verbatim>\<open>datetime\<close> object, which the python-whois library puts into its raw data; it is
  given by its text under \<^verbatim>\<open>strftime("%Y-%m-%d %H:%M:%S")\<close>.
\<close>

datatype pyval =
    PNone
  | PBool bool
  | PInt int
  | PFloat real
  | PStr string
  | PList "pyval list"
  | PDict "(string \<times> pyval) list"
  | PDatetime string

type_synonym pydict = "(string \<times> pyval) list"

datatype exc_class =
    ValueError | JSONDecodeError | UnicodeDecodeError | RecursionError | OverflowError
  | TypeError | AttributeError | KeyError | OSError

text \<open>An exception is its class and its message, the \<^verbatim>\<open>str(e)\<close> of the source.\<close>

datatype pyexc = Exc exc_class string

fun exc_str :: "pyexc \<Rightarrow> string" where
  "exc_str (Exc c msg) = msg"

fun exc_cls :: "pyexc \<Rightarrow> exc_class" where
  "exc_cls (Exc c msg) = c"

text \<open>Truth value of a Python object, as \<^verbatim>\<open>if x:\<close> tests it.\<close>

fun truthy :: "pyval \<Rightarrow> bool" where
  "truthy PNone = False"
| "truthy (PBool b) = b"
| "truthy (PInt i) = (i \<noteq> 0)"
| "truthy (PFloat r) = (r \<noteq> 0)"
| "truthy (PStr s) = (s \<noteq> [])"
| "truthy (PList xs) = (xs \<noteq> [])"
| "truthy (PDict d) = (d \<noteq> [])"
| "truthy (PDatetime t) = True"

fun type_name :: "pyval \<Rightarrow> string" where
  "type_name PNone = ''NoneType''"
| "type_name (PBool b) = ''bool''"
| "type_name (PInt i) = ''int''"
| "type_name (PFloat r) = ''float''"
| "type_name (PStr s) = ''str''"
| "type_name (PList xs) = ''list''"
| "type_name (PDict d) = ''dict''"
| "type_name (PDatetime t) = ''datetime.datetime''"

text \<open>\<^verbatim>\<open>d.get(k)\<close> and \<^verbatim>\<open>d.get(k, default)\<close>: a missing key reads as the default.\<close>

definition py_get_default :: "pydict \<Rightarrow> string \<Rightarrow> pyval \<Rightarrow> pyval" where
  "py_get_default d k dflt = (case map_of d k of None \<Rightarrow> dflt | Some v \<Rightarrow> v)"

definition py_get :: "pydict \<Rightarrow> string \<Rightarrow> pyval" where
  "py_get d k = py_get_default d k PNone"

text \<open>\<^verbatim>\<open>k in d\<close>.\<close>

definition py_in :: "string \<Rightarrow> pydict \<Rightarrow> bool" where
  "py_in k d = (map_of d k \<noteq> None)"

text \<open>\<^verbatim>\<open>d[k] = v\<close>: an existing key keeps its place, a new key goes to the end.\<close>

definition py_set :: "pydict \<Rightarrow> string \<Rightarrow> pyval \<Rightarrow> pydict" where
  "py_set d k v = AList.update k v d"

text \<open>Decimal rendering of a natural number, for the messages that format an index.\<close>

fun str_nat :: "nat \<Rightarrow> string" where
  "str_nat n =
     (if n < 10 then [char_of (48 + n)]
      else str_nat (n div 10) @ [char_of (48 + n mod 10)])"

declare str_nat.simps [simp del]

text \<open>
  \<^verbatim>\<open>sep.join(items)\<close>: the items joined with the separator between them; the first item
  that is not a string raises TypeError.
\<close>

fun join_strs :: "string \<Rightarrow> string list \<Rightarrow> string" where
  "join_strs sep [] = []"
| "join_strs sep [s] = s"
| "join_strs sep (s # t # ts) = s @ sep @ join_strs sep (t # ts)"

fun str_items :: "nat \<Rightarrow> pyval list \<Rightarrow> pyexc + string list" where
  "str_items i [] = Inr []"
| "str_items i (PStr s # vs) =
     (case str_items (Suc i) vs of Inl e \<Rightarrow> Inl e | Inr ss \<Rightarrow> Inr (s # ss))"
| "str_items i (v # vs) =
     Inl (Exc TypeError (''sequence item '' @ str_nat i @ '': expected str instance, ''
                          @ type_name v @ '' found''))"

definition py_join :: "string \<Rightarrow> pyval list \<Rightarrow> pyexc + string" where
  "py_join sep items =
     (case str_items 0 items of Inl e \<Rightarrow> Inl e | Inr ss \<Rightarrow> Inr (join_strs sep ss))"

section \<open>util.py: merging normalized records\<close>

text \<open>
  The body of the inner loop of \<^verbatim>\<open>merge_whois_results\<close>, for one item of a later record:
  \<^verbatim>\<open>
  if key in ('source', 'raw'): continue
  if merged.get(key) is None or (merged.get(key) == '' and value):
      merged[key] = value
  \<close>
\<close>

definition merge_item :: "pydict \<Rightarrow> string \<times> pyval \<Rightarrow> pydict" where
  "merge_item merged kv =
     (case kv of (key, val) \<Rightarrow>
        if key = ''source'' \<or> key = ''raw'' then merged
        else if py_get merged key = PNone \<or> (py_get merged key = PStr [] \<and> truthy val)
             then py_set merged key val
             else merged)"

text \<open>The body of the outer loop, for one later record: its source label, then its items.\<close>

definition merge_one :: "pydict \<times> pyval list \<Rightarrow> pydict \<Rightarrow> pydict \<times> pyval list" where
  "merge_one st result =
     (case st of (merged, sources) \<Rightarrow>
        (foldl merge_item merged result,
         sources @ [py_get_default result ''source'' (PStr ''unknown'')]))"

definition merge_whois_results :: "pydict list \<Rightarrow> pyexc + pydict" where
  "merge_whois_results results =
     (case results of
        [] \<Rightarrow> Inr []
      | r0 # rest \<Rightarrow>
          (case foldl merge_one (r0, [py_get_default r0 ''source'' (PStr ''unknown'')]) rest of
             (merged, sources) \<Rightarrow>
               (case py_join '', '' sources of
                  Inl e \<Rightarrow> Inl e
                | Inr s \<Rightarrow> Inr (py_set merged ''source'' (PStr s)))))"

text \<open>
  The rule of the merge in the words of the specification, for one field: the value so
  far, then the later record's value for the same field. A value is absent when the key
  is missing or holds None.
\<close>

definition absent :: "pyval option \<Rightarrow> bool" where
  "absent cur = (cur = None \<or> cur = Some PNone)"

definition adopt :: "pyval option \<Rightarrow> pyval option \<Rightarrow> pyval option" where
  "adopt cur later =
     (case later of
        None \<Rightarrow> cur
      | Some v \<Rightarrow> if absent cur \<or> (cur = Some (PStr []) \<and> truthy v) then Some v else cur)"

text \<open>The source label of a record that has one.\<close>

definition source_of :: "pydict \<Rightarrow> string" where
  "source_of r = (case map_of r ''source'' of Some (PStr s) \<Rightarrow> s | _ \<Rightarrow> ''unknown'')"

definition has_source :: "pydict \<Rightarrow> bool" where
  "has_source r = (case map_of r ''source'' of Some (PStr s) \<Rightarrow> True | _ \<Rightarrow> False)"

definition wf_dict :: "pydict \<Rightarrow> bool" where
  "wf_dict d = distinct (map fst d)"

section \<open>util.py: validating identities\<close>

text \<open>
  \<^verbatim>\<open>validate_ip\<close> hands the string to \<^verbatim>\<open>ipaddress.ip_address\<close> of the Python standard
  library and turns its ValueError into one of its own. The library's parser is written
  out here as the predicate that it accepts a string (CPython 3.9.5 and later): an IPv4
  address is four decimal octets, an IPv6 address is hextets with at most one
  \<^verbatim>\<open>::\<close>, an optional dotted IPv4 tail and an optional zone after \<^verbatim>\<open>%\<close>.
\<close>

text \<open>\<^verbatim>\<open>s.split(c)\<close> for a one-character separator.\<close>

fun split_on :: "char \<Rightarrow> string \<Rightarrow> string list" where
  "split_on c [] = [[]]"
| "split_on c (x # xs) =
     (if x = c then [] # split_on c xs
      else (case split_on c xs of [] \<Rightarrow> [[x]] | p # ps \<Rightarrow> (x # p) # ps))"

definition is_digit :: "char \<Rightarrow> bool" where
  "is_digit c = ((48::nat) \<le> of_char c \<and> of_char c \<le> (57::nat))"

definition is_hex_digit :: "char \<Rightarrow> bool" where
  "is_hex_digit c =
     (is_digit c \<or> ((65::nat) \<le> of_char c \<and> of_char c \<le> (70::nat))
                \<or> ((97::nat) \<le> of_char c \<and> of_char c \<le> (102::nat)))"

definition dec_val :: "string \<Rightarrow> nat" where
  "dec_val s = foldl (\<lambda>n c. 10 * n + (of_char c - 48)) (0::nat) s"

text \<open>\<^verbatim>\<open>IPv4Address._parse_octet\<close> succeeds.\<close>

definition parse_octet_ok :: "string \<Rightarrow> bool" where
  "parse_octet_ok s =
     (s \<noteq> [] \<and> list_all is_digit s \<and> length s \<le> 3
      \<and> (s = ''0'' \<or> hd s \<noteq> CHR ''0'') \<and> dec_val s \<le> 255)"

definition ipv4_ok :: "string \<Rightarrow> bool" where
  "ipv4_ok s =
     (CHR ''/'' \<notin> set s \<and> s \<noteq> []
      \<and> length (split_on CHR ''.'' s) = 4
      \<and> list_all parse_octet_ok (split_on CHR ''.'' s))"

text \<open>\<^verbatim>\<open>IPv6Address._parse_hextet\<close> succeeds.\<close>

definition parse_hextet_ok :: "string \<Rightarrow> bool" where
  "parse_hextet_ok h = (list_all is_hex_digit h \<and> length h \<le> 4 \<and> h \<noteq> [])"

text \<open>
  \<^verbatim>\<open>IPv6Address._split_scope_id\<close>: the address before the first \<^verbatim>\<open>%\<close>; a zone after it
  must be non-empty and hold no further \<^verbatim>\<open>%\<close>. None stands for AddressValueError.
\<close>

definition split_scope_id :: "string \<Rightarrow> string option" where
  "split_scope_id s =
     (let addr = takeWhile (\<lambda>c. c \<noteq> CHR ''%'') s;
          rest = dropWhile (\<lambda>c. c \<noteq> CHR ''%'') s
      in if rest = [] then Some addr
         else if tl rest = [] \<or> CHR ''%'' \<in> set (tl rest) then None
         else Some addr)"

text \<open>
  The checks of \<^verbatim>\<open>IPv6Address._ip_int_from_str\<close> on the colon-separated parts: at most
  nine parts, at most one empty part strictly inside (the \<^verbatim>\<open>::\<close>), an empty first or
  last part only next to it, and every part that is read a hextet.
\<close>

definition hextets_ok :: "string list \<Rightarrow> bool" where
  "hextets_ok parts =
     (length parts \<le> 9 \<and>
      (case filter (\<lambda>i. parts ! i = []) [1 ..< length parts - 1] of
         [] \<Rightarrow> length parts = 8 \<and> list_all parse_hextet_ok parts
       | [skip_index] \<Rightarrow>
           (let parts_hi = (if hd parts = [] then skip_index - 1 else skip_index);
                lo0 = length parts - skip_index - 1;
                parts_lo = (if last parts = [] then lo0 - 1 else lo0)
            in (if hd parts = [] then parts_hi = 0 else True)
               \<and> (if last parts = [] then parts_lo = 0 else True)
               \<and> parts_hi + parts_lo \<le> 7
               \<and> list_all parse_hextet_ok (take parts_hi parts)
               \<and> list_all parse_hextet_ok (drop (length parts - parts_lo) parts))
       | _ \<Rightarrow> False))"

text \<open>
  A dotted last part is parsed as an IPv4 address and replaced by its two hextets, which
  are always well formed; \<^verbatim>\<open>''0''\<close> stands for each of them here.
\<close>

definition ipv6_int_ok :: "string \<Rightarrow> bool" where
  "ipv6_int_ok s =
     (s \<noteq> [] \<and>
      (let parts = split_on CHR '':'' s
       in 3 \<le> length parts \<and>
          (if CHR ''.'' \<in> set (last parts)
           then ipv4_ok (last parts) \<and> hextets_ok (butlast parts @ [''0'', ''0''])
           else hextets_ok parts)))"

definition ipv6_ok :: "string \<Rightarrow> bool" where
  "ipv6_ok s =
     (CHR ''/'' \<notin> set s \<and>
      (case split_scope_id s of None \<Rightarrow> False | Some addr \<Rightarrow> ipv6_int_ok addr))"

definition ip_address_ok :: "string \<Rightarrow> bool" where
  "ip_address_ok s = (ipv4_ok s \<or> ipv6_ok s)"

text \<open>\<^verbatim>\<open>validate_ip\<close>: the address object it returns is used nowhere, so it returns unit.\<close>

definition validate_ip :: "string \<Rightarrow> pyexc + unit" where
  "validate_ip ip_str =
     (if ip_address_ok ip_str then Inr ()
      else Inl (Exc ValueError (''Invalid IP address: '' @ ip_str)))"

definition is_valid_ip :: "string \<Rightarrow> bool" where
  "is_valid_ip ip_str = (case validate_ip ip_str of Inr u \<Rightarrow> True | Inl e \<Rightarrow> False)"


text \<open>
  The characters of an IPv4 or IPv6 literal that carries no zone, the method labels that
  \<^verbatim>\<open>get_resolver_by_method\<close> knows, and the characters taken as safe in a file name.
\<close>

definition ip_literal_char :: "char \<Rightarrow> bool" where
  "ip_literal_char c = (is_hex_digit c \<or> c = CHR ''.'' \<or> c = CHR '':'')"

definition lookup_methods :: "string list" where
  "lookup_methods = [''auto'', ''ipwhois'', ''pythonwhois'', ''system'']"

definition is_ascii_letter :: "char \<Rightarrow> bool" where
  "is_ascii_letter c =
     (((65::nat) \<le> of_char c \<and> of_char c \<le> (90::nat))
      \<or> ((97::nat) \<le> of_char c \<and> of_char c \<le> (122::nat)))"

definition filename_safe_char :: "char \<Rightarrow> bool" where
  "filename_safe_char c =
     (is_digit c \<or> is_ascii_letter c \<or> c = CHR ''.'' \<or> c = CHR ''_'' \<or> c = CHR ''-'')"

section \<open>The file system seen by cache.py\<close>

text \<open>
  The cache keeps one JSON file per entry. A file's content is what \<^verbatim>\<open>open\<close> and
  \<^verbatim>\<open>json.load\<close> make of it: bytes that do not decode as text (UnicodeDecodeError), text
  that is no JSON document, such as an empty or truncated file (JSONDecodeError), a
  document nested deeper than the parser goes (RecursionError), or a document. The state
  of the file system is its directories, its regular files by path, and the log of the
  changes made to it, in order.
\<close>

datatype content = Undecodable | Invalid | TooDeep | Doc pyval

datatype fs_op =
    OpOpenW string
  | OpWrite string content
  | OpReplace string string
  | OpRemove string

record fs =
  dirs :: "string list"
  files :: "(string \<times> content) list"
  trace :: "fs_op list"

text \<open>
  What the operating system lets the process do. Each primitive raises OSError where
  its permission is missing, so every I/O failure the code can meet is one choice of
  these predicates.
\<close>

record io_env =
  can_read :: "string \<Rightarrow> bool"
  can_create :: "string \<Rightarrow> bool"
  can_write :: "string \<Rightarrow> bool"
  can_replace :: "string \<Rightarrow> string \<Rightarrow> bool"
  can_remove :: "string \<Rightarrow> bool"
  can_list :: "string \<Rightarrow> bool"

definition all_allowed :: io_env where
  "all_allowed =
     \<lparr> can_read = (\<lambda>p. True), can_create = (\<lambda>p. True), can_write = (\<lambda>p. True),
       can_replace = (\<lambda>p q. True), can_remove = (\<lambda>p. True), can_list = (\<lambda>p. True) \<rparr>"

text \<open>\<^verbatim>\<open>os.path.join\<close> of a directory and one component (POSIX).\<close>

definition dir_prefix :: "string \<Rightarrow> string" where
  "dir_prefix d = (if d = [] \<or> last d = CHR ''/'' then d else d @ ''/'')"

definition path_join :: "string \<Rightarrow> string \<Rightarrow> string" where
  "path_join d n = (if n \<noteq> [] \<and> hd n = CHR ''/'' then n else dir_prefix d @ n)"

definition os_path_exists :: "fs \<Rightarrow> string \<Rightarrow> bool" where
  "os_path_exists s p = (map_of (files s) p \<noteq> None \<or> List.member (dirs s) p)"

text \<open>\<^verbatim>\<open>open(p)\<close> and reading it to the end.\<close>

definition open_read :: "io_env \<Rightarrow> fs \<Rightarrow> string \<Rightarrow> pyexc + content" where
  "open_read env s p =
     (case map_of (files s) p of
        None \<Rightarrow> Inl (Exc OSError ''No such file or directory'')
      | Some c \<Rightarrow> if can_read env p then Inr c else Inl (Exc OSError ''Permission denied''))"

definition json_load :: "content \<Rightarrow> pyexc + pyval" where
  "json_load c =
     (case c of
        Undecodable \<Rightarrow> Inl (Exc UnicodeDecodeError ''codec can't decode byte'')
      | Invalid \<Rightarrow> Inl (Exc JSONDecodeError ''Expecting value'')
      | TooDeep \<Rightarrow> Inl (Exc RecursionError ''maximum recursion depth exceeded'')
      | Doc v \<Rightarrow> Inr v)"

text \<open>\<^verbatim>\<open>open(p, 'w')\<close>: the file is created or truncated, so it holds no document yet.\<close>

definition open_write :: "io_env \<Rightarrow> fs \<Rightarrow> string \<Rightarrow> (pyexc + unit) \<times> fs" where
  "open_write env s p =
     (if can_create env p
      then (Inr (), s\<lparr>files := AList.update p Invalid (files s),
                      trace := trace s @ [OpOpenW p]\<rparr>)
      else (Inl (Exc OSError ''Permission denied''), s))"

text \<open>
  The values that \<^verbatim>\<open>json.dump\<close> can write: all but a \<^verbatim>\<open>datetime\<close> object, at any depth.
\<close>

fun json_ok :: "pyval \<Rightarrow> bool" where
  "json_ok (PDatetime t) = False"
| "json_ok (PList xs) = list_all json_ok xs"
| "json_ok (PDict d) = list_all json_ok (map snd d)"
| "json_ok v = True"

text \<open>
  \<^verbatim>\<open>json.dump(data, f)\<close> and closing the file. A value that is no JSON value raises
  TypeError once the text before it is written, and a write that fails leaves the
  truncated file behind; in both cases the file holds no document.
\<close>

definition json_dump :: "io_env \<Rightarrow> fs \<Rightarrow> string \<Rightarrow> pyval \<Rightarrow> (pyexc + unit) \<times> fs" where
  "json_dump env s p data =
     (if \<not> json_ok data
      then (Inl (Exc TypeError ''Object of type datetime is not JSON serializable''), s)
      else if can_write env p
      then (Inr (), s\<lparr>files := AList.update p (Doc data) (files s),
                      trace := trace s @ [OpWrite p (Doc data)]\<rparr>)
      else (Inl (Exc OSError ''No space left on device''), s))"

definition os_replace :: "io_env \<Rightarrow> fs \<Rightarrow> string \<Rightarrow> string \<Rightarrow> (pyexc + unit) \<times> fs" where
  "os_replace env s src dst =
     (case map_of (files s) src of
        None \<Rightarrow> (Inl (Exc OSError ''No such file or directory''), s)
      | Some c \<Rightarrow>
          if can_replace env src dst
          then (Inr (), s\<lparr>files := AList.update dst c (AList.delete src (files s)),
                          trace := trace s @ [OpReplace src dst]\<rparr>)
          else (Inl (Exc OSError ''Permission denied''), s))"




section \<open>cache.py: the cache manager\<close>

record CacheManager =
  cache_dir :: string
  ttl :: real

text \<open>\<^verbatim>\<open>ip.replace(':', '_')\<close>.\<close>

definition replace_colons :: "string \<Rightarrow> string" where
  "replace_colons ip = map (\<lambda>c. if c = CHR '':'' then CHR ''_'' else c) ip"

text \<open>The file name \<^verbatim>\<open>f"{ip}_{method}.json"\<close> and \<^verbatim>\<open>_get_cache_path\<close>.\<close>

definition cache_file_name :: "string \<Rightarrow> string \<Rightarrow> string" where
  "cache_file_name ip method = replace_colons ip @ ''_'' @ method @ ''.json''"

definition get_cache_path :: "CacheManager \<Rightarrow> string \<Rightarrow> string \<Rightarrow> string" where
  "get_cache_path self ip method = path_join (cache_dir self) (cache_file_name ip method)"

text \<open>\<^verbatim>\<open>data.get(key, default)\<close> on whatever the file held: only a dictionary has it.\<close>

fun obj_get :: "pyval \<Rightarrow> string \<Rightarrow> pyval \<Rightarrow> pyexc + pyval" where
  "obj_get (PDict d) k dflt = Inr (py_get_default d k dflt)"
| "obj_get v k dflt =
     Inl (Exc AttributeError
            ([CHR 0x27] @ type_name v @ [CHR 0x27] @ '' object has no attribute '' @ [CHR 0x27] @ ''get'' @ [CHR 0x27]))"

text \<open>
  \<^verbatim>\<open>now - x\<close> for the float \<^verbatim>\<open>now\<close>: numbers (and booleans) subtract, the rest raises.
  An integer is converted to a float first, which raises OverflowError from
  \<^verbatim>\<open>2 ** 1024 - 2 ** 970\<close> on, the first integer that rounds beyond the largest float.
\<close>

definition float_int_limit :: int where
  "float_int_limit = 2 ^ 1024 - 2 ^ 970"

fun float_sub :: "real \<Rightarrow> pyval \<Rightarrow> pyexc + real" where
  "float_sub x (PInt i) =
     (if \<bar>i\<bar> < float_int_limit then Inr (x - real_of_int i)
      else Inl (Exc OverflowError ''int too large to convert to float''))"
| "float_sub x (PFloat r) = Inr (x - r)"
| "float_sub x (PBool b) = Inr (x - (if b then 1 else 0))"
| "float_sub x v =
     Inl (Exc TypeError (''unsupported operand type(s) for -: 'float' and ''
                          @ [CHR 0x27] @ type_name v @ [CHR 0x27]))"

text \<open>The body of the \<^verbatim>\<open>try\<close> of \<^verbatim>\<open>CacheManager.get\<close>; \<^verbatim>\<open>now\<close> is \<^verbatim>\<open>time.time()\<close>.\<close>

definition get_try ::
  "io_env \<Rightarrow> fs \<Rightarrow> real \<Rightarrow> CacheManager \<Rightarrow> string \<Rightarrow> string \<Rightarrow> pyexc + pyval" where
  "get_try env s now self ip method =
     (let cache_file = get_cache_path self ip method in
      if \<not> os_path_exists s cache_file then Inr PNone
      else
        (case open_read env s cache_file of
           Inl e \<Rightarrow> Inl e
         | Inr c \<Rightarrow>
        (case json_load c of
           Inl e \<Rightarrow> Inl e
         | Inr data \<Rightarrow>
        (case obj_get data ''timestamp'' (PInt 0) of
           Inl e \<Rightarrow> Inl e
         | Inr ts \<Rightarrow>
        (case float_sub now ts of
           Inl e \<Rightarrow> Inl e
         | Inr age \<Rightarrow>
             if age > ttl self then Inr PNone
             else obj_get data ''result'' PNone)))))"

text \<open>
  \<^verbatim>\<open>CacheManager.get\<close>: the two handlers, \<^verbatim>\<open>except json.JSONDecodeError\<close> and
  \<^verbatim>\<open>except Exception\<close>, both return None.
\<close>

definition CacheManager_get ::
  "io_env \<Rightarrow> fs \<Rightarrow> real \<Rightarrow> CacheManager \<Rightarrow> string \<Rightarrow> string \<Rightarrow> pyexc + pyval" where
  "CacheManager_get env s now self ip method =
     (case get_try env s now self ip method of
        Inr v \<Rightarrow> Inr v
      | Inl e \<Rightarrow> if exc_cls e = JSONDecodeError then Inr PNone else Inr PNone)"

text \<open>The body of the \<^verbatim>\<open>try\<close> of \<^verbatim>\<open>CacheManager.set\<close>.\<close>

definition set_try ::
  "io_env \<Rightarrow> fs \<Rightarrow> real \<Rightarrow> CacheManager \<Rightarrow> string \<Rightarrow> string \<Rightarrow> pyval
     \<Rightarrow> (pyexc + bool) \<times> fs" where
  "set_try env s now self ip method result =
     (let cache_file = get_cache_path self ip method;
          data = PDict [(''timestamp'', PFloat now), (''result'', result)];
          temp_file = cache_file @ ''.tmp''
      in case open_write env s temp_file of
           (Inl e, s1) \<Rightarrow> (Inl e, s1)
         | (Inr u, s1) \<Rightarrow>
        (case json_dump env s1 temp_file data of
           (Inl e, s2) \<Rightarrow> (Inl e, s2)
         | (Inr u, s2) \<Rightarrow>
        (case os_replace env s2 temp_file cache_file of
           (Inl e, s3) \<Rightarrow> (Inl e, s3)
         | (Inr u, s3) \<Rightarrow> (Inr True, s3))))"

text \<open>
  \<^verbatim>\<open>CacheManager.set\<close>: None is refused before the \<^verbatim>\<open>try\<close>; \<^verbatim>\<open>except Exception\<close>
  returns False.
\<close>

definition CacheManager_set ::
  "io_env \<Rightarrow> fs \<Rightarrow> real \<Rightarrow> CacheManager \<Rightarrow> string \<Rightarrow> string \<Rightarrow> pyval
     \<Rightarrow> (pyexc + bool) \<times> fs" where
  "CacheManager_set env s now self ip method result =
     (if result = PNone then (Inr False, s)
      else
        (case set_try env s now self ip method result of
           (Inr b, s') \<Rightarrow> (Inr b, s')
         | (Inl e, s') \<Rightarrow> (Inr False, s')))"





section \<open>Notions used to state the cache properties\<close>

text \<open>
  The state a successful \<^verbatim>\<open>set\<close> leaves: the changes made are exactly the opening of the
  temporary file, the writing of the document into it and its renaming onto the cache
  file, in this order; the cache file holds the document and the temporary file is gone.
\<close>

definition set_success_state :: "fs \<Rightarrow> string \<Rightarrow> pyval \<Rightarrow> fs \<Rightarrow> bool" where
  "set_success_state s cache_file data s' =
     (trace s' = trace s @ [OpOpenW (cache_file @ ''.tmp''),
                            OpWrite (cache_file @ ''.tmp'') (Doc data),
                            OpReplace (cache_file @ ''.tmp'') cache_file]
      \<and> map_of (files s') cache_file = Some (Doc data)
      \<and> map_of (files s') (cache_file @ ''.tmp'') = None
      \<and> dirs s' = dirs s)"







section \<open>util.py: normalizing raw lookup data\<close>

text \<open>
  What the model takes from the Python library without writing it out: the text of a
  float, a list or a dictionary under \<^verbatim>\<open>str()\<close>, and the parsing and printing of dates
  by \<^verbatim>\<open>datetime\<close>. Each date function stands for the parse followed by
  \<^verbatim>\<open>strftime("%Y-%m-%d %H:%M:%S")\<close> and gives None where the library raises.
\<close>

record pylib =
  repr_of :: "pyval \<Rightarrow> string"
  epoch_to_text :: "real \<Rightarrow> string option"
  iso_to_text :: "string \<Rightarrow> string option"
  strp_to_text :: "string \<Rightarrow> string option"

definition str_int :: "int \<Rightarrow> string" where
  "str_int i = (if i < 0 then CHR ''-'' # str_nat (nat (- i)) else str_nat (nat i))"

text \<open>\<^verbatim>\<open>str(x)\<close>.\<close>

definition py_str :: "pylib \<Rightarrow> pyval \<Rightarrow> string" where
  "py_str lib v =
     (case v of
        PStr s \<Rightarrow> s
      | PNone \<Rightarrow> ''None''
      | PBool b \<Rightarrow> (if b then ''True'' else ''False'')
      | PInt i \<Rightarrow> str_int i
      | _ \<Rightarrow> repr_of lib v)"

text \<open>Whitespace as \<^verbatim>\<open>str.strip\<close> and the pattern \<^verbatim>\<open>\s\<close> see it, and \<^verbatim>\<open>s.strip()\<close>.\<close>

definition is_space :: "char \<Rightarrow> bool" where
  "is_space c =
     (((9::nat) \<le> of_char c \<and> of_char c \<le> (13::nat))
      \<or> ((28::nat) \<le> of_char c \<and> of_char c \<le> (32::nat))
      \<or> of_char c = (133::nat) \<or> of_char c = (160::nat))"

definition strip :: "string \<Rightarrow> string" where
  "strip s = rev (dropWhile is_space (rev (dropWhile is_space s)))"

text \<open>
  \<^verbatim>\<open>re.search\<close> for a pattern that is given by what it matches at one position: the
  leftmost position that matches wins.
\<close>

fun search_from :: "(string \<Rightarrow> 'a option) \<Rightarrow> string \<Rightarrow> 'a option" where
  "search_from m [] = m []"
| "search_from m (c # cs) =
     (case m (c # cs) of Some r \<Rightarrow> Some r | None \<Rightarrow> search_from m cs)"

text \<open>The group of \<^verbatim>\<open>(\d+)\<close> and of \<^verbatim>\<open>AS(\d+)\<close> matched at the start of a string.\<close>

definition match_digits :: "string \<Rightarrow> string option" where
  "match_digits s = (if takeWhile is_digit s = [] then None else Some (takeWhile is_digit s))"

fun match_AS_digits :: "string \<Rightarrow> string option" where
  "match_AS_digits (a # b # rest) =
     (if a = CHR ''A'' \<and> b = CHR ''S'' then match_digits rest else None)"
| "match_AS_digits s = None"

definition extract_asn :: "pylib \<Rightarrow> pyval \<Rightarrow> pyval" where
  "extract_asn lib asn_str =
     (if \<not> truthy asn_str then PNone
      else
        (case search_from match_AS_digits (py_str lib asn_str) of
           Some g \<Rightarrow> PStr g
         | None \<Rightarrow>
             (case search_from match_digits (py_str lib asn_str) of
                Some g \<Rightarrow> PStr g
              | None \<Rightarrow> PNone)))"

text \<open>
  The loop \<^verbatim>\<open>for key in [...]: if key in d and d[key]: return str(d[key]).strip()\<close>
  shared by the three extractors, ending in \<^verbatim>\<open>return None\<close>.
\<close>

fun first_present :: "pylib \<Rightarrow> string list \<Rightarrow> pydict \<Rightarrow> pyval" where
  "first_present lib [] d = PNone"
| "first_present lib (key # keys) d =
     (if py_in key d \<and> truthy (py_get d key) then PStr (strip (py_str lib (py_get d key)))
      else first_present lib keys d)"

definition extract_organization :: "pylib \<Rightarrow> pyval \<Rightarrow> pyval" where
  "extract_organization lib org_data =
     (if \<not> truthy org_data then PNone
      else
        (case org_data of
           PStr s \<Rightarrow> PStr (strip s)
         | PDict d \<Rightarrow> first_present lib [''name'', ''org'', ''organization'', ''orgName''] d
         | _ \<Rightarrow> PNone))"

definition extract_country :: "pylib \<Rightarrow> pyval \<Rightarrow> pyval" where
  "extract_country lib location_data =
     (if \<not> truthy location_data then PNone
      else
        (case location_data of
           PStr s \<Rightarrow> PStr (strip s)
         | PDict d \<Rightarrow>
             first_present lib [''country'', ''cc'', ''countryCode'', ''country_code''] d
         | _ \<Rightarrow> PNone))"

definition extract_city :: "pylib \<Rightarrow> pyval \<Rightarrow> pyval" where
  "extract_city lib location_data =
     (if \<not> truthy location_data then PNone
      else
        (case location_data of
           PStr s \<Rightarrow> PNone
         | PDict d \<Rightarrow> first_present lib [''city'', ''cityName'', ''city_name''] d
         | _ \<Rightarrow> PNone))"

text \<open>\<^verbatim>\<open>timestamp.replace('Z', '+00:00')\<close>.\<close>

definition replace_Z :: "string \<Rightarrow> string" where
  "replace_Z s = concat (map (\<lambda>c. if c = CHR ''Z'' then ''+00:00'' else [c]) s)"

text \<open>
  \<^verbatim>\<open>format_timestamp\<close>. Its outer handler, \<^verbatim>\<open>except Exception\<close>, returns
  \<^verbatim>\<open>str(timestamp) if timestamp else None\<close>; a boolean is an \<^verbatim>\<open>int\<close> for
  \<^verbatim>\<open>isinstance\<close>.
\<close>

definition timestamp_fallback :: "pylib \<Rightarrow> pyval \<Rightarrow> pyval" where
  "timestamp_fallback lib ts = (if truthy ts then PStr (py_str lib ts) else PNone)"

definition format_timestamp :: "pylib \<Rightarrow> pyval \<Rightarrow> pyval" where
  "format_timestamp lib ts =
     (case ts of
        PNone \<Rightarrow> PNone
      | PBool b \<Rightarrow>
          (case epoch_to_text lib (if b then 1 else 0) of
             Some t \<Rightarrow> PStr t | None \<Rightarrow> timestamp_fallback lib ts)
      | PInt i \<Rightarrow>
          (case epoch_to_text lib (real_of_int i) of
             Some t \<Rightarrow> PStr t | None \<Rightarrow> timestamp_fallback lib ts)
      | PFloat r \<Rightarrow>
          (case epoch_to_text lib r of
             Some t \<Rightarrow> PStr t | None \<Rightarrow> timestamp_fallback lib ts)
      | PStr s \<Rightarrow>
          (case iso_to_text lib (replace_Z s) of
             Some t \<Rightarrow> PStr t
           | None \<Rightarrow>
               (case strp_to_text lib s of
                  Some t \<Rightarrow> PStr t | None \<Rightarrow> timestamp_fallback lib ts))
      | PDatetime t \<Rightarrow> PStr t
      | _ \<Rightarrow> PStr (py_str lib ts))"

text \<open>\<^verbatim>\<open>sub in s\<close> for strings.\<close>

fun is_substring :: "string \<Rightarrow> string \<Rightarrow> bool" where
  "is_substring sub [] = (sub = [])"
| "is_substring sub (c # cs) =
     (take (length sub) (c # cs) = sub \<or> is_substring sub cs)"

text \<open>
  The loop over \<^verbatim>\<open>raw_result['nets']\<close>: the first element that has a description gives
  the organization. \<^verbatim>\<open>'description' in net\<close> is a key test on a dictionary, a substring
  test on a string and an element test on a list, after which \<^verbatim>\<open>net['description']\<close>
  raises on the last two; on anything else the test itself raises. None means that the
  loop ended without a description.
\<close>

fun nets_organization :: "pylib \<Rightarrow> pyval list \<Rightarrow> pyexc + pyval option" where
  "nets_organization lib [] = Inr None"
| "nets_organization lib (net # nets) =
     (case net of
        PDict d \<Rightarrow>
          if py_in ''description'' d
          then Inr (Some (extract_organization lib (py_get d ''description'')))
          else nets_organization lib nets
      | PStr s \<Rightarrow>
          if is_substring ''description'' s
          then Inl (Exc TypeError (''string indices must be integers, not 'str'' @ [CHR 0x27]))
          else nets_organization lib nets
      | PList l \<Rightarrow>
          if List.member l (PStr ''description'')
          then Inl (Exc TypeError ''list indices must be integers or slices, not str'')
          else nets_organization lib nets
      | _ \<Rightarrow>
          Inl (Exc TypeError (''argument of type '' @ [CHR 0x27] @ type_name net
                               @ [CHR 0x27] @ '' is not iterable'')))"

text \<open>The five groups of \<^verbatim>\<open>normalize_whois_result\<close> that cannot raise, one per field.\<close>

definition norm_ip :: "pydict \<Rightarrow> pyval" where
  "norm_ip raw_result =
     (if py_in ''ip'' raw_result then py_get raw_result ''ip''
      else if py_in ''query'' raw_result then py_get raw_result ''query''
      else PNone)"

definition norm_network :: "pylib \<Rightarrow> pydict \<Rightarrow> pyval" where
  "norm_network lib raw_result =
     (case map_of raw_result ''network'' of
        Some (PDict net) \<Rightarrow>
          if py_in ''cidr'' net then py_get net ''cidr''
          else if py_in ''start_address'' net \<and> py_in ''end_address'' net
          then PStr (py_str lib (py_get net ''start_address'') @ ''-''
                     @ py_str lib (py_get net ''end_address''))
          else PNone
      | _ \<Rightarrow> if py_in ''cidr'' raw_result then py_get raw_result ''cidr'' else PNone)"

definition norm_asn :: "pylib \<Rightarrow> pydict \<Rightarrow> pyval" where
  "norm_asn lib raw_result =
     (if py_in ''asn'' raw_result
      then extract_asn lib (PStr (py_str lib (py_get raw_result ''asn'')))
      else if py_in ''asn_registry'' raw_result \<and> py_in ''asn'' raw_result
      then extract_asn lib (PStr (py_str lib (py_get raw_result ''asn'')))
      else PNone)"

definition norm_country :: "pylib \<Rightarrow> pydict \<Rightarrow> pyval" where
  "norm_country lib raw_result =
     (if py_in ''country'' raw_result then extract_country lib (py_get raw_result ''country'')
      else if py_in ''asn_country_code'' raw_result
      then extract_country lib (py_get raw_result ''asn_country_code'')
      else PNone)"

definition norm_city :: "pylib \<Rightarrow> pydict \<Rightarrow> pyval" where
  "norm_city lib raw_result =
     (if py_in ''city'' raw_result then extract_city lib (py_get raw_result ''city'')
      else PNone)"

definition norm_registered :: "pylib \<Rightarrow> pydict \<Rightarrow> pyval" where
  "norm_registered lib raw_result =
     (if py_in ''registered'' raw_result
      then format_timestamp lib (py_get raw_result ''registered'')
      else if py_in ''created'' raw_result
      then format_timestamp lib (py_get raw_result ''created'')
      else PNone)"

text \<open>The organization, the one group that can raise.\<close>

definition norm_organization :: "pylib \<Rightarrow> pydict \<Rightarrow> pyexc + pyval" where
  "norm_organization lib raw_result =
     (if py_in ''org'' raw_result
      then Inr (extract_organization lib (py_get raw_result ''org''))
      else if py_in ''organization'' raw_result
      then Inr (extract_organization lib (py_get raw_result ''organization''))
      else
        (case map_of raw_result ''nets'' of
           Some (PList nets) \<Rightarrow>
             (if nets \<noteq> [] then
                (case nets_organization lib nets of
                   Inl e \<Rightarrow> Inl e
                 | Inr None \<Rightarrow> Inr PNone
                 | Inr (Some org) \<Rightarrow> Inr org)
              else Inr PNone)
         | _ \<Rightarrow> Inr PNone))"

text \<open>
  \<^verbatim>\<open>normalize_whois_result\<close>: the record is built with its nine keys in the order of the
  source, each field then set by its group.
\<close>

definition normalize_whois_result :: "pylib \<Rightarrow> pydict \<Rightarrow> string \<Rightarrow> pyexc + pydict" where
  "normalize_whois_result lib raw_result source =
     (case norm_organization lib raw_result of
        Inl e \<Rightarrow> Inl e
      | Inr org \<Rightarrow>
          Inr [(''ip'', norm_ip raw_result),
               (''network'', norm_network lib raw_result),
               (''asn'', norm_asn lib raw_result),
               (''organization'', org),
               (''country'', norm_country lib raw_result),
               (''city'', norm_city lib raw_result),
               (''registered'', norm_registered lib raw_result),
               (''source'', PStr source),
               (''raw'', PDict raw_result)])"

section \<open>resolvers/base.py: rate limiting and the retrying lookup\<close>

text \<open>
  A resolver instance has a name, a rate limit and the time of its last request. The
  world outside is a clock, which the model advances only by sleeping, and the log of
  what the resolver did: its waits for the rate limit, its attempts at the raw lookup
  (numbered from 0) and its sleeps between attempts, in seconds.
\<close>

record resolver =
  name :: string
  rate_limit :: real
  last_request_time :: real

datatype event = RateWait real | Attempt nat | Backoff int

record world =
  clock :: real
  events :: "event list"

text \<open>\<^verbatim>\<open>_apply_rate_limit\<close>.\<close>

definition apply_rate_limit :: "resolver \<times> world \<Rightarrow> resolver \<times> world" where
  "apply_rate_limit st =
     (case st of (self, w) \<Rightarrow>
        (let elapsed = clock w - last_request_time self;
             w' = (if elapsed < rate_limit self
                   then w\<lparr>clock := clock w + (rate_limit self - elapsed),
                          events := events w @ [RateWait (rate_limit self - elapsed)]\<rparr>
                   else w)
         in (self\<lparr>last_request_time := clock w'\<rparr>, w')))"

text \<open>
  The body of the \<^verbatim>\<open>try\<close> after the rate limit: the raw lookup of this attempt, the
  identity put into the raw data where it is missing, and the normalization.
  \<^verbatim>\<open>_perform_lookup\<close> reaches outside the program, so it is given as what each attempt
  returns or raises.
\<close>

definition attempt_result ::
  "pylib \<Rightarrow> (nat \<Rightarrow> pyexc + pydict) \<Rightarrow> string \<Rightarrow> string \<Rightarrow> nat \<Rightarrow> pyexc + pydict" where
  "attempt_result lib perform ip nm k =
     (case perform k of
        Inl e \<Rightarrow> Inl e
      | Inr raw_result \<Rightarrow>
          normalize_whois_result lib
            (if py_in ''ip'' raw_result then raw_result
             else py_set raw_result ''ip'' (PStr ip)) nm)"

text \<open>
  The \<^verbatim>\<open>while retry_count <= max_retries\<close> loop of \<^verbatim>\<open>lookup\<close>. Each turn makes the
  attempt numbered \<^verbatim>\<open>retry_count\<close>. Where the condition fails at once the function falls
  off its end and returns None.
\<close>

function lookup_loop ::
  "pylib \<Rightarrow> (nat \<Rightarrow> pyexc + pydict) \<Rightarrow> string \<Rightarrow> int \<Rightarrow> int \<Rightarrow> resolver \<times> world
     \<Rightarrow> (pyexc + pyval) \<times> (resolver \<times> world)" where
  "lookup_loop lib perform ip max_retries retry_count st =
     (if retry_count \<le> max_retries then
        (case apply_rate_limit st of (self, w) \<Rightarrow>
           (let w1 = w\<lparr>events := events w @ [Attempt (nat retry_count)]\<rparr> in
            case attempt_result lib perform ip (name self) (nat retry_count) of
              Inr result \<Rightarrow> (Inr (PDict result), (self, w1))
            | Inl e \<Rightarrow>
                if retry_count + 1 \<le> max_retries
                then lookup_loop lib perform ip max_retries (retry_count + 1)
                       (self, w1\<lparr>clock := clock w1 + real_of_int ((retry_count + 1) * 2),
                                 events := events w1 @ [Backoff ((retry_count + 1) * 2)]\<rparr>)
                else (Inl (Exc ValueError (''Lookup failed: '' @ exc_str e)), (self, w1))))
      else (Inr PNone, st))"
  by pat_completeness auto
termination
  by (relation "measure (\<lambda>(lib, perform, ip, max_retries, retry_count, st).
                           nat (max_retries + 1 - retry_count))") auto

declare lookup_loop.simps [simp del]

text \<open>\<^verbatim>\<open>BaseResolver.lookup\<close>: the identity is validated first.\<close>

definition lookup ::
  "pylib \<Rightarrow> (nat \<Rightarrow> pyexc + pydict) \<Rightarrow> string \<Rightarrow> int \<Rightarrow> resolver \<times> world
     \<Rightarrow> (pyexc + pyval) \<times> (resolver \<times> world)" where
  "lookup lib perform ip max_retries st =
     (case validate_ip ip of
        Inl e \<Rightarrow> (Inl e, st)
      | Inr u \<Rightarrow> lookup_loop lib perform ip max_retries 0 st)"

text \<open>
  What the log of a lookup shows once the waits for the rate limit are left out: the
  attempts numbered from \<^verbatim>\<open>j\<close> up to \<^verbatim>\<open>k\<close>, each but the first after a sleep of
  twice its number.
\<close>

fun is_rate_wait :: "event \<Rightarrow> bool" where
  "is_rate_wait (RateWait d) = True"
| "is_rate_wait e = False"

definition retry_log :: "nat \<Rightarrow> nat \<Rightarrow> event list" where
  "retry_log j k =
     Attempt j # concat (map (\<lambda>i. [Backoff (2 * int i), Attempt i]) [Suc j ..< Suc k])"

definition new_events :: "world \<Rightarrow> world \<Rightarrow> event list" where
  "new_events w w' = filter (\<lambda>e. \<not> is_rate_wait e) (drop (length (events w)) (events w'))"

text \<open>The attempts before \<^verbatim>\<open>k\<close> all fail.\<close>

definition all_fail ::
  "pylib \<Rightarrow> (nat \<Rightarrow> pyexc + pydict) \<Rightarrow> string \<Rightarrow> string \<Rightarrow> nat \<Rightarrow> bool" where
  "all_fail lib perform ip nm k =
     list_all (\<lambda>i. case attempt_result lib perform ip nm i of Inl e \<Rightarrow> True | Inr r \<Rightarrow> False)
       [0 ..< k]"

fun is_attempt :: "event \<Rightarrow> bool" where
  "is_attempt (Attempt k) = True"
| "is_attempt e = False"

text \<open>
  A library used in the examples: \<^verbatim>\<open>str()\<close> of a float, list or dictionary is a
  placeholder and no date parses, so that timestamps pass through as they are.
\<close>

definition example_lib :: pylib where
  "example_lib =
     \<lparr> repr_of = (\<lambda>v. ''<repr>''), epoch_to_text = (\<lambda>x. None),
       iso_to_text = (\<lambda>s. None), strp_to_text = (\<lambda>s. None) \<rparr>"

section \<open>resolvers/system_resolver.py: parsing the output of whois\<close>

text \<open>
  \<^verbatim>\<open>output.splitlines()\<close>: a line ends at a line feed, a carriage return (with the line
  feed after it, if any), a vertical tab, a form feed, a file, group or record separator
  or a next-line character; no empty line is added after a final line end.
\<close>

definition is_line_break :: "char \<Rightarrow> bool" where
  "is_line_break c =
     (((10::nat) \<le> of_char c \<and> of_char c \<le> (13::nat))
      \<or> ((28::nat) \<le> of_char c \<and> of_char c \<le> (30::nat))
      \<or> of_char c = (133::nat))"

fun split_lines :: "string \<Rightarrow> string \<Rightarrow> string list" where
  "split_lines cur [] = (if cur = [] then [] else [cur])"
| "split_lines cur [c] = (if is_line_break c then [cur] else [cur @ [c]])"
| "split_lines cur (c # d # cs) =
     (if c = CHR 0x0D \<and> d = CHR 0x0A then cur # split_lines [] cs
      else if is_line_break c then cur # split_lines [] (d # cs)
      else split_lines (cur @ [c]) (d # cs))"

definition splitlines :: "string \<Rightarrow> string list" where
  "splitlines s = split_lines [] s"

text \<open>
  The regular expressions of the parser, searched with \<^verbatim>\<open>re.IGNORECASE\<close>. All but one
  have the shape \<^verbatim>\<open>(?:K1|K2|...):\s*(.+)$\<close>: one of the keywords, in the order of the
  alternatives, then a colon, then white space, then the group, which runs to the end of
  the text. The remaining one is \<^verbatim>\<open>origin:\s*AS(\d+)$\<close>. The optional part of
  \<^verbatim>\<open>Org(?:anization)? Name\<close> is tried first, so this alternative stands for the two
  keywords \<^verbatim>\<open>Organization Name\<close> and \<^verbatim>\<open>Org Name\<close> in this order.
\<close>

datatype pattern = Keywords "string list" | OriginAS

definition lower_char :: "char \<Rightarrow> char" where
  "lower_char c =
     (case map_of (zip ''ABCDEFGHIJKLMNOPQRSTUVWXYZ'' ''abcdefghijklmnopqrstuvwxyz'') c of
        Some l \<Rightarrow> l
      | None \<Rightarrow> c)"

text \<open>The text starts with the keyword, letters compared without case.\<close>

fun ci_prefix :: "string \<Rightarrow> string \<Rightarrow> bool" where
  "ci_prefix [] s = True"
| "ci_prefix (k # kw) [] = False"
| "ci_prefix (k # kw) (c # s) =
     (if lower_char c = lower_char k then ci_prefix kw s else False)"

text \<open>
  \<^verbatim>\<open>(.+)$\<close> on a text: the dot takes no line feed, and the end is the end of the text or
  the place before a final line feed.
\<close>

definition dot_plus_end :: "string \<Rightarrow> string option" where
  "dot_plus_end t =
     (if t = [] then None
      else if CHR 0x0A \<notin> set t then Some t
      else if last t = CHR 0x0A \<and> butlast t \<noteq> [] \<and> CHR 0x0A \<notin> set (butlast t)
      then Some (butlast t)
      else None)"

text \<open>
  \<^verbatim>\<open>\s*(.+)$\<close>: the white space is taken greedily and given back one character at a
  time until the group matches.
\<close>

fun try_ws :: "nat \<Rightarrow> string \<Rightarrow> string option" where
  "try_ws 0 rest = dot_plus_end rest"
| "try_ws (Suc n) rest =
     (case dot_plus_end (drop (Suc n) rest) of
        Some g \<Rightarrow> Some g
      | None \<Rightarrow> try_ws n rest)"

definition match_value :: "string \<Rightarrow> string option" where
  "match_value rest = try_ws (length (takeWhile is_space rest)) rest"

text \<open>The keyword pattern matched at the start of a text: its group.\<close>

fun match_keywords :: "string list \<Rightarrow> string \<Rightarrow> string option" where
  "match_keywords [] s = None"
| "match_keywords (kw # kws) s =
     (if ci_prefix (kw @ '':'') s
      then (case match_value (drop (length kw + 1) s) of
              Some g \<Rightarrow> Some g
            | None \<Rightarrow> match_keywords kws s)
      else match_keywords kws s)"

text \<open>\<^verbatim>\<open>(\d+)$\<close>: digits up to the end of the text.\<close>

definition digits_end :: "string \<Rightarrow> string option" where
  "digits_end t =
     (if takeWhile is_digit t \<noteq> []
         \<and> (dropWhile is_digit t = [] \<or> dropWhile is_digit t = [CHR 0x0A])
      then Some (takeWhile is_digit t) else None)"

definition match_origin :: "string \<Rightarrow> string option" where
  "match_origin s =
     (if ci_prefix ''origin:'' s \<and> ci_prefix ''AS'' (dropWhile is_space (drop 7 s))
      then digits_end (drop 2 (dropWhile is_space (drop 7 s)))
      else None)"

text \<open>\<^verbatim>\<open>re.search(pattern, line, re.IGNORECASE)\<close>, giving \<^verbatim>\<open>match.group(1)\<close>.\<close>

definition re_search :: "pattern \<Rightarrow> string \<Rightarrow> string option" where
  "re_search p line =
     (case p of
        Keywords kws \<Rightarrow> search_from (match_keywords kws) line
      | OriginAS \<Rightarrow> search_from match_origin line)"

text \<open>The table \<^verbatim>\<open>patterns\<close> of \<^verbatim>\<open>_parse_whois_output\<close>, in its order.\<close>

definition patterns :: "(string \<times> pattern list) list" where
  "patterns =
     [(''organization'',
         [Keywords [''Organization'', ''Organization Name'', ''Org Name''],
          Keywords [''descr'', ''owner'']]),
      (''country'',
         [Keywords [''Country'', ''Country Code''], Keywords [''country'']]),
      (''asn'',
         [Keywords [''OriginAS'', ''Origin AS'', ''ASNumber'', ''ASN''], OriginAS]),
      (''network'',
         [Keywords [''CIDR'', ''NetRange'', ''Network''], Keywords [''inetnum'']]),
      (''registered'',
         [Keywords [''RegDate'', ''Created'', ''Registration Date''],
          Keywords [''created'']])]"

text \<open>
  The innermost loop, \<^verbatim>\<open>for pattern in pattern_list\<close>, which stops at the first pattern
  that matches: the stripped group of that pattern.
\<close>

fun first_match :: "pattern list \<Rightarrow> string \<Rightarrow> string option" where
  "first_match [] line = None"
| "first_match (p # ps) line =
     (case re_search p line of
        Some g \<Rightarrow> Some (strip g)
      | None \<Rightarrow> first_match ps line)"

text \<open>The loop over the table for one line: \<^verbatim>\<open>result[key] = ...\<close> where a pattern matched.\<close>

definition parse_key :: "string \<Rightarrow> pydict \<Rightarrow> string \<times> pattern list \<Rightarrow> pydict" where
  "parse_key line result kp =
     (case kp of (key, pattern_list) \<Rightarrow>
        (case first_match pattern_list line of
           Some v \<Rightarrow> py_set result key (PStr v)
         | None \<Rightarrow> result))"

text \<open>The body of the loop over the lines: empty lines and comments are skipped.\<close>

definition parse_line :: "pydict \<Rightarrow> string \<Rightarrow> pydict" where
  "parse_line result line0 =
     (let line = strip line0 in
      if line = [] \<or> hd line = CHR ''%'' \<or> hd line = CHR ''#'' then result
      else foldl (parse_key line) result patterns)"

text \<open>\<^verbatim>\<open>SystemWhoisResolver._parse_whois_output\<close>.\<close>

definition parse_whois_output :: "string \<Rightarrow> string \<Rightarrow> pydict" where
  "parse_whois_output output ip = foldl parse_line [(''ip'', PStr ip)] (splitlines output)"

text \<open>
  What one line gives for a field, if anything, and what the lines give for it when the
  last line that has a value decides, and when the first one does.
\<close>

definition line_value :: "string \<Rightarrow> string \<Rightarrow> string option" where
  "line_value key line0 =
     (let line = strip line0 in
      if line = [] \<or> hd line = CHR ''%'' \<or> hd line = CHR ''#'' then None
      else (case map_of patterns key of
              None \<Rightarrow> None
            | Some pattern_list \<Rightarrow> first_match pattern_list line))"

definition last_value :: "string \<Rightarrow> string list \<Rightarrow> string option" where
  "last_value key lines =
     (case filter (\<lambda>l. line_value key l \<noteq> None) lines of
        [] \<Rightarrow> None
      | m # ms \<Rightarrow> line_value key (last (m # ms)))"

definition first_value :: "string \<Rightarrow> string list \<Rightarrow> string option" where
  "first_value key lines =
     (case filter (\<lambda>l. line_value key l \<noteq> None) lines of
        [] \<Rightarrow> None
      | m # ms \<Rightarrow> line_value key m)"

section \<open>resolvers/__init__.py and engine.py: the lookup of one identity and of a batch\<close>

text \<open>
  \<^verbatim>\<open>get_resolver_by_method\<close>: fresh resolver instances for a method label. The engine
  wraps a single resolver into a list; here the list is returned at once. All instances
  get the rate limit of the engine, and their last request time starts at 0.
\<close>

definition new_resolver :: "string \<Rightarrow> real \<Rightarrow> resolver" where
  "new_resolver nm rl = \<lparr>name = nm, rate_limit = rl, last_request_time = 0\<rparr>"

definition get_resolver_by_method :: "string \<Rightarrow> real \<Rightarrow> pyexc + resolver list" where
  "get_resolver_by_method method rl =
     (if method = ''auto''
      then Inr [new_resolver ''IPWhoisResolver'' rl,
                new_resolver ''PythonWhoisResolver'' rl,
                new_resolver ''SystemWhoisResolver'' rl]
      else if method = ''ipwhois'' then Inr [new_resolver ''IPWhoisResolver'' rl]
      else if method = ''pythonwhois'' then Inr [new_resolver ''PythonWhoisResolver'' rl]
      else if method = ''system'' then Inr [new_resolver ''SystemWhoisResolver'' rl]
      else Inl (Exc ValueError
                  (''Invalid lookup method '' @ [CHR 0x27] @ method @ [CHR 0x27]
                   @ ''. Available methods: auto, ipwhois, pythonwhois, system'')))"

text \<open>
  The engine: its method label, whether it caches, the rate limit and the number of
  retries it hands to the resolvers, and its cache manager, which exists when caching is
  on. The timeout is only passed on to the raw lookups and is left out.

  What the engine works on: the disk that holds the cache, the clock and the log of the
  resolvers, and the lines that the logger of the engine writes at the levels info and
  error.
\<close>

record WhoisEngine =
  lookup_method :: string
  use_cache :: bool
  engine_rate_limit :: real
  engine_max_retries :: int
  cache :: "CacheManager option"

datatype log_line = LogInfo string | LogError string

record engine_state =
  disk :: fs
  outside :: world
  logged :: "log_line list"

text \<open>
  The loop \<^verbatim>\<open>for resolver in resolvers\<close> of \<^verbatim>\<open>lookup_ip\<close>, on the lists \<^verbatim>\<open>results\<close> and
  \<^verbatim>\<open>errors\<close>. The raw lookups of the resolver named \<^verbatim>\<open>nm\<close> for the identity are given as
  \<^verbatim>\<open>perform nm ip\<close>, one outcome for each attempt. Only a ValueError is caught.
\<close>

fun resolver_loop ::
  "pylib \<Rightarrow> (string \<Rightarrow> string \<Rightarrow> nat \<Rightarrow> pyexc + pydict) \<Rightarrow> WhoisEngine \<Rightarrow> string
     \<Rightarrow> resolver list \<Rightarrow> pyval list \<times> string list \<times> engine_state
     \<Rightarrow> (pyexc + pyval list \<times> string list) \<times> engine_state" where
  "resolver_loop lib perform self ip [] (results, errors, st) = (Inr (results, errors), st)"
| "resolver_loop lib perform self ip (r # rs) (results, errors, st) =
     (let st0 = st\<lparr>logged := logged st @ [LogInfo (''Trying '' @ name r @ '' for '' @ ip)]\<rparr>
      in case lookup lib (perform (name r) ip) ip (engine_max_retries self)
                (r, outside st0) of
           (Inr result, (r', w')) \<Rightarrow>
             if lookup_method self \<noteq> ''auto''
             then (Inr (results @ [result], errors), st0\<lparr>outside := w'\<rparr>)
             else resolver_loop lib perform self ip rs
                    (results @ [result], errors, st0\<lparr>outside := w'\<rparr>)
         | (Inl e, (r', w')) \<Rightarrow>
             if exc_cls e = ValueError
             then if lookup_method self \<noteq> ''auto''
                  then (Inl (Exc ValueError
                               (''Lookup with '' @ name r @ '' failed: '' @ exc_str e)),
                        st0\<lparr>outside := w'\<rparr>)
                  else resolver_loop lib perform self ip rs
                         (results, errors @ [exc_str e], st0\<lparr>outside := w'\<rparr>)
             else (Inl e, st0\<lparr>outside := w'\<rparr>))"

text \<open>
  \<^verbatim>\<open>merge_whois_results(results)\<close> on what the lookups returned. A lookup returns a
  dictionary, or None when the number of retries is negative; then every lookup of the
  call returns None and the merge fails on \<^verbatim>\<open>results[0].copy()\<close>.
\<close>

fun dict_of :: "pyval \<Rightarrow> pydict option" where
  "dict_of (PDict d) = Some d"
| "dict_of v = None"

definition merge_results :: "pyval list \<Rightarrow> pyexc + pyval" where
  "merge_results results =
     (case those (map dict_of results) of
        None \<Rightarrow> Inl (Exc AttributeError
                      ([CHR 0x27] @ ''NoneType'' @ [CHR 0x27] @ '' object has no attribute ''
                       @ [CHR 0x27] @ ''copy'' @ [CHR 0x27]))
      | Some ds \<Rightarrow>
          (case merge_whois_results ds of
             Inl e \<Rightarrow> Inl e
           | Inr merged \<Rightarrow> Inr (PDict merged)))"

text \<open>\<^verbatim>\<open>if self.use_cache and self.cache: self.cache.set(...)\<close>, the time being the clock.\<close>

definition cache_store ::
  "io_env \<Rightarrow> WhoisEngine \<Rightarrow> string \<Rightarrow> pyval \<Rightarrow> engine_state \<Rightarrow> (pyexc + unit) \<times> engine_state" where
  "cache_store env self ip final_result st =
     (if use_cache self then
        (case cache self of
           None \<Rightarrow> (Inr (), st)
         | Some c \<Rightarrow>
             (case CacheManager_set env (disk st) (clock (outside st)) c ip (lookup_method self)
                     final_result of
                (Inl e, s') \<Rightarrow> (Inl e, st\<lparr>disk := s'\<rparr>)
              | (Inr b, s') \<Rightarrow> (Inr (), st\<lparr>disk := s'\<rparr>)))
      else (Inr (), st))"

text \<open>\<^verbatim>\<open>lookup_ip\<close> after the cache gave nothing.\<close>

definition lookup_ip_miss ::
  "pylib \<Rightarrow> (string \<Rightarrow> string \<Rightarrow> nat \<Rightarrow> pyexc + pydict) \<Rightarrow> io_env \<Rightarrow> WhoisEngine \<Rightarrow> string
     \<Rightarrow> engine_state \<Rightarrow> (pyexc + pyval) \<times> engine_state" where
  "lookup_ip_miss lib perform env self ip st =
     (case get_resolver_by_method (lookup_method self) (engine_rate_limit self) of
        Inl e \<Rightarrow> (Inl e, st)
      | Inr resolvers \<Rightarrow>
          (case resolver_loop lib perform self ip resolvers ([], [], st) of
             (Inl e, st1) \<Rightarrow> (Inl e, st1)
           | (Inr (results, errors), st1) \<Rightarrow>
               if results = []
               then (Inl (Exc ValueError (''All lookup methods failed for '' @ ip)),
                     st1\<lparr>logged := logged st1
                          @ [LogError (''No joy for '' @ ip @ '' - all methods failed: ''
                                       @ join_strs ''; '' errors)]\<rparr>)
               else
                 (case (if length results > 1 then merge_results results
                        else Inr (hd results)) of
                    Inl e \<Rightarrow> (Inl e, st1)
                  | Inr final_result \<Rightarrow>
                      (case cache_store env self ip final_result st1 of
                         (Inl e, st2) \<Rightarrow> (Inl e, st2)
                       | (Inr u, st2) \<Rightarrow> (Inr final_result, st2)))))"

text \<open>\<^verbatim>\<open>WhoisEngine.lookup_ip\<close>: a cached record that is truthy is returned at once.\<close>

definition lookup_ip ::
  "pylib \<Rightarrow> (string \<Rightarrow> string \<Rightarrow> nat \<Rightarrow> pyexc + pydict) \<Rightarrow> io_env \<Rightarrow> WhoisEngine \<Rightarrow> string
     \<Rightarrow> engine_state \<Rightarrow> (pyexc + pyval) \<times> engine_state" where
  "lookup_ip lib perform env self ip st =
     (if use_cache self \<and> cache self \<noteq> None then
        (case CacheManager_get env (disk st) (clock (outside st)) (the (cache self)) ip
                (lookup_method self) of
           Inl e \<Rightarrow> (Inl e, st)
         | Inr cached \<Rightarrow>
             if truthy cached then (Inr cached, st)
             else lookup_ip_miss lib perform env self ip st)
      else lookup_ip_miss lib perform env self ip st)"





text \<open>
  What the lookup of a resolver gives for an identity, and what the engine without a cache
  gives for it. Neither depends on the clock or on the log, so they are taken from a
  start at time 0. The records that a list of outcomes holds, and the messages of its
  errors; the outcomes of the three resolvers of the method \<^verbatim>\<open>auto\<close>, in their order, and
  the lines that the engine logs when it tries resolvers.
\<close>

definition resolver_outcome ::
  "pylib \<Rightarrow> (string \<Rightarrow> string \<Rightarrow> nat \<Rightarrow> pyexc + pydict) \<Rightarrow> int \<Rightarrow> string \<Rightarrow> string
     \<Rightarrow> pyexc + pyval" where
  "resolver_outcome lib perform max_retries ip nm =
     fst (lookup lib (perform nm ip) ip max_retries
            (new_resolver nm 0, \<lparr>clock = 0, events = []\<rparr>))"

definition successes :: "(pyexc + 'a) list \<Rightarrow> 'a list" where
  "successes outcomes =
     List.map_filter (\<lambda>x. case x of Inl e \<Rightarrow> None | Inr r \<Rightarrow> Some r) outcomes"

definition failures :: "(pyexc + 'a) list \<Rightarrow> string list" where
  "failures outcomes =
     List.map_filter (\<lambda>x. case x of Inl e \<Rightarrow> Some (exc_str e) | Inr r \<Rightarrow> None) outcomes"

definition auto_resolvers :: "string list" where
  "auto_resolvers = [''IPWhoisResolver'', ''PythonWhoisResolver'', ''SystemWhoisResolver'']"

definition auto_outcomes ::
  "pylib \<Rightarrow> (string \<Rightarrow> string \<Rightarrow> nat \<Rightarrow> pyexc + pydict) \<Rightarrow> WhoisEngine \<Rightarrow> string
     \<Rightarrow> (pyexc + pyval) list" where
  "auto_outcomes lib perform self ip =
     map (resolver_outcome lib perform (engine_max_retries self) ip) auto_resolvers"

definition trying :: "string \<Rightarrow> string list \<Rightarrow> log_line list" where
  "trying ip nms = map (\<lambda>nm. LogInfo (''Trying '' @ nm @ '' for '' @ ip)) nms"

definition empty_state :: engine_state where
  "empty_state =
     \<lparr>disk = \<lparr>dirs = [], files = [], trace = []\<rparr>, outside = \<lparr>clock = 0, events = []\<rparr>,
      logged = []\<rparr>"


text \<open>
  The record that the cache gives for an identity, if the engine caches and the cache
  holds a usable, truthy record; the resolver behind each single-method label; the
  identities of a batch in the order in which their lookups are taken.
\<close>

definition cached_record ::
  "io_env \<Rightarrow> WhoisEngine \<Rightarrow> string \<Rightarrow> engine_state \<Rightarrow> pyval option" where
  "cached_record env self ip st =
     (case cache self of
        None \<Rightarrow> None
      | Some c \<Rightarrow>
          if use_cache self then
            (case CacheManager_get env (disk st) (clock (outside st)) c ip (lookup_method self) of
               Inl e \<Rightarrow> None
             | Inr cached \<Rightarrow> if truthy cached then Some cached else None)
          else None)"

definition single_methods :: "(string \<times> string) list" where
  "single_methods =
     [(''ipwhois'', ''IPWhoisResolver''), (''pythonwhois'', ''PythonWhoisResolver''),
      (''system'', ''SystemWhoisResolver'')]"



section \<open>Properties of merge_whois_results\<close>

lemma py_get_PNone_iff: "py_get d k = PNone \<longleftrightarrow> absent (map_of d k)"
  by (auto simp: py_get_def py_get_default_def absent_def split: option.splits)

lemma py_get_PStr_iff: "py_get d k = PStr s \<longleftrightarrow> map_of d k = Some (PStr s)"
  by (auto simp: py_get_def py_get_default_def split: option.splits)

lemma map_of_py_set: "map_of (py_set d k v) = (map_of d)(k \<mapsto> v)"
  by (simp add: py_set_def update_conv')

lemma map_of_merge_item:
  "map_of (merge_item merged (key, val)) k =
     (if k = key \<and> key \<noteq> ''source'' \<and> key \<noteq> ''raw''
      then adopt (map_of merged k) (Some val) else map_of merged k)"
  by (auto simp: merge_item_def py_get_PNone_iff py_get_PStr_iff map_of_py_set adopt_def)

lemma adopt_None [simp]: "adopt cur None = cur"
  by (simp add: adopt_def)

lemma map_of_foldl_merge_item:
  "distinct (map fst result) \<Longrightarrow>
   map_of (foldl merge_item merged result) k =
     (if k \<noteq> ''source'' \<and> k \<noteq> ''raw''
      then adopt (map_of merged k) (map_of result k) else map_of merged k)"
proof (induction result arbitrary: merged)
  case Nil
  then show ?case by simp
next
  case (Cons kv result)
  obtain key val where kv: "kv = (key, val)" by (cases kv)
  from Cons.prems have d: "distinct (map fst result)" and nk: "key \<notin> fst ` set result"
    by (auto simp: kv)
  from nk have none: "map_of result key = None"
    by (simp add: map_of_eq_None_iff)
  show ?case
    using Cons.IH [OF d, of "merge_item merged (key, val)"] none
    by (auto simp: kv map_of_merge_item)
qed

lemma str_items_all_str: "str_items i (map PStr ss) = Inr ss"
  by (induction ss arbitrary: i) auto

lemma foldl_merge_one_sources:
  "snd (foldl merge_one (m, srcs) rest) =
     srcs @ map (\<lambda>r. py_get_default r ''source'' (PStr ''unknown'')) rest"
  by (induction rest arbitrary: m srcs) (auto simp: merge_one_def)

lemma foldl_merge_one_fields:
  "\<forall>r \<in> set rest. wf_dict r \<Longrightarrow> k \<noteq> ''source'' \<Longrightarrow> k \<noteq> ''raw'' \<Longrightarrow>
   map_of (fst (foldl merge_one (m, srcs) rest)) k =
     foldl adopt (map_of m k) (map (\<lambda>r. map_of r k) rest)"
  by (induction rest arbitrary: m srcs)
     (auto simp: merge_one_def wf_dict_def map_of_foldl_merge_item)

lemma foldl_merge_one_keep:
  "\<forall>r \<in> set rest. wf_dict r \<Longrightarrow> k = ''source'' \<or> k = ''raw'' \<Longrightarrow>
   map_of (fst (foldl merge_one (m, srcs) rest)) k = map_of m k"
  by (induction rest arbitrary: m srcs)
     (auto simp: merge_one_def wf_dict_def map_of_foldl_merge_item)

lemma has_source_label:
  "has_source r \<Longrightarrow> py_get_default r ''source'' (PStr ''unknown'') = PStr (source_of r)"
  by (auto simp: has_source_def source_of_def py_get_default_def
           split: option.splits pyval.splits)

lemma foldl_adopt_keeps:
  "v \<noteq> PNone \<Longrightarrow> v \<noteq> PStr [] \<Longrightarrow> foldl adopt (Some v) ls = Some v"
  by (induction ls) (auto simp: adopt_def absent_def split: option.splits)

text \<open>
  Claim C5. For a non-empty list of records, each a well-formed dictionary with a string
  under \<^verbatim>\<open>source\<close> (as every normalized record has), the merge returns a record and
  does not raise. Every field other than \<^verbatim>\<open>source\<close> and \<^verbatim>\<open>raw\<close> is the first record's
  value, replaced in turn by a later record's value exactly when the value so far is
  absent, or is the empty string while the later value is non-empty; so a value of the
  first record that is neither absent nor empty stays. The merged \<^verbatim>\<open>source\<close> is the
  source labels of all the records in order, joined with a comma and a space, and the
  merged \<^verbatim>\<open>raw\<close> is that of the first record.
\<close>

theorem merge_whois_results_fills_gaps:
  assumes wf: "\<forall>r \<in> set (r0 # rest). wf_dict r \<and> has_source r"
  shows "\<exists>m. merge_whois_results (r0 # rest) = Inr m
      \<and> (\<forall>k. k \<noteq> ''source'' \<and> k \<noteq> ''raw'' \<longrightarrow>
             map_of m k = foldl adopt (map_of r0 k) (map (\<lambda>r. map_of r k) rest))
      \<and> (\<forall>k v. k \<noteq> ''source'' \<and> k \<noteq> ''raw'' \<and> map_of r0 k = Some v
                 \<and> v \<noteq> PNone \<and> v \<noteq> PStr [] \<longrightarrow> map_of m k = Some v)
      \<and> map_of m ''source'' = Some (PStr (join_strs '', '' (map source_of (r0 # rest))))
      \<and> map_of m ''raw'' = map_of r0 ''raw''"
proof -
  obtain merged sources where f:
    "foldl merge_one (r0, [py_get_default r0 ''source'' (PStr ''unknown'')]) rest
       = (merged, sources)"
    by (cases "foldl merge_one (r0, [py_get_default r0 ''source'' (PStr ''unknown'')]) rest")
  from wf have wfr: "\<forall>r \<in> set rest. wf_dict r" by simp
  have "sources = map (\<lambda>r. py_get_default r ''source'' (PStr ''unknown'')) (r0 # rest)"
    using foldl_merge_one_sources
            [of r0 "[py_get_default r0 ''source'' (PStr ''unknown'')]" rest] f
    by simp
  also have "\<dots> = map PStr (map source_of (r0 # rest))"
    using wf by (simp add: has_source_label)
  finally have src: "sources = map PStr (map source_of (r0 # rest))" .
  have j: "py_join '', '' sources = Inr (join_strs '', '' (map source_of (r0 # rest)))"
    unfolding src py_join_def by (simp only: str_items_all_str sum.case)
  have m: "merge_whois_results (r0 # rest) =
             Inr (py_set merged ''source''
                    (PStr (join_strs '', '' (map source_of (r0 # rest)))))"
    by (simp add: merge_whois_results_def f j del: join_strs.simps)
  have fields: "map_of merged k = foldl adopt (map_of r0 k) (map (\<lambda>r. map_of r k) rest)"
    if "k \<noteq> ''source''" "k \<noteq> ''raw''" for k
    using foldl_merge_one_fields [OF wfr that] f by (metis fst_conv)
  have raw: "map_of merged ''raw'' = map_of r0 ''raw''"
    using foldl_merge_one_keep [OF wfr, of "''raw''"] f by (metis fst_conv)
  show ?thesis
    unfolding m using fields raw
    by (simp add: map_of_py_set foldl_adopt_keeps del: join_strs.simps)
qed

theorem merge_whois_results_fills_gaps_witness:
  "wf_dict [(''ip'', PStr ''8.8.8.8''), (''organization'', PStr ''Google''),
            (''country'', PNone), (''city'', PStr []),
            (''source'', PStr ''IPWhoisResolver''), (''raw'', PInt 1)]
   \<and> has_source [(''ip'', PStr ''8.8.8.8''), (''organization'', PStr ''Google''),
            (''country'', PNone), (''city'', PStr []),
            (''source'', PStr ''IPWhoisResolver''), (''raw'', PInt 1)]
   \<and> wf_dict [(''ip'', PStr ''8.8.8.8''), (''organization'', PStr ''Other''),
            (''country'', PStr ''US''), (''city'', PStr ''Mountain View''),
            (''source'', PStr ''SystemWhoisResolver''), (''raw'', PInt 2)]
   \<and> has_source [(''ip'', PStr ''8.8.8.8''), (''organization'', PStr ''Other''),
            (''country'', PStr ''US''), (''city'', PStr ''Mountain View''),
            (''source'', PStr ''SystemWhoisResolver''), (''raw'', PInt 2)]
   \<and> (\<exists>m. merge_whois_results
             [[(''ip'', PStr ''8.8.8.8''), (''organization'', PStr ''Google''),
               (''country'', PNone), (''city'', PStr []),
               (''source'', PStr ''IPWhoisResolver''), (''raw'', PInt 1)],
              [(''ip'', PStr ''8.8.8.8''), (''organization'', PStr ''Other''),
               (''country'', PStr ''US''), (''city'', PStr ''Mountain View''),
               (''source'', PStr ''SystemWhoisResolver''), (''raw'', PInt 2)]] = Inr m
      \<and> map_of m ''organization'' = Some (PStr ''Google'')
      \<and> map_of m ''country'' = Some (PStr ''US'')
      \<and> map_of m ''city'' = Some (PStr ''Mountain View'')
      \<and> map_of m ''source'' = Some (PStr ''IPWhoisResolver, SystemWhoisResolver'')
      \<and> map_of m ''raw'' = Some (PInt 1))"
proof -
  let ?a = "[(''ip'', PStr ''8.8.8.8''), (''organization'', PStr ''Google''),
             (''country'', PNone), (''city'', PStr []),
             (''source'', PStr ''IPWhoisResolver''), (''raw'', PInt 1)]"
  let ?b = "[(''ip'', PStr ''8.8.8.8''), (''organization'', PStr ''Other''),
             (''country'', PStr ''US''), (''city'', PStr ''Mountain View''),
             (''source'', PStr ''SystemWhoisResolver''), (''raw'', PInt 2)]"
  have wa: "wf_dict ?a \<and> has_source ?a" and wb: "wf_dict ?b \<and> has_source ?b"
    by (simp_all add: wf_dict_def has_source_def)
  then have h: "\<forall>r \<in> set (?a # [?b]). wf_dict r \<and> has_source r"
    by simp
  from merge_whois_results_fills_gaps [OF h] obtain m where
    m: "merge_whois_results (?a # [?b]) = Inr m"
    and f: "\<forall>k. k \<noteq> ''source'' \<and> k \<noteq> ''raw'' \<longrightarrow>
              map_of m k = foldl adopt (map_of ?a k) (map (\<lambda>r. map_of r k) [?b])"
    and s: "map_of m ''source'' = Some (PStr (join_strs '', '' (map source_of (?a # [?b]))))"
    and r: "map_of m ''raw'' = map_of ?a ''raw''"
    by blast
  have "map_of m ''organization'' = Some (PStr ''Google'')"
    using f [rule_format, of "''organization''"] by (simp add: adopt_def absent_def)
  moreover have "map_of m ''country'' = Some (PStr ''US'')"
    using f [rule_format, of "''country''"] by (simp add: adopt_def absent_def)
  moreover have "map_of m ''city'' = Some (PStr ''Mountain View'')"
    using f [rule_format, of "''city''"] by (simp add: adopt_def absent_def)
  moreover have "map_of m ''source'' = Some (PStr ''IPWhoisResolver, SystemWhoisResolver'')"
    using s by (simp add: source_of_def)
  moreover have "map_of m ''raw'' = Some (PInt 1)"
    using r by simp
  ultimately show ?thesis using wa wb m by blast
qed

text \<open>
  Claim C10. Applied to the empty list of records, the merge returns the empty record:
  it does not raise.
\<close>

theorem merge_whois_results_empty: "merge_whois_results [] = Inr []"
  by (simp add: merge_whois_results_def)

section \<open>The characters of a valid identity\<close>

lemma split_on_not_Nil: "split_on c s \<noteq> []"
  by (induction s) (auto split: list.splits)

lemma set_split_on: "ch \<in> set s \<Longrightarrow> ch = c \<or> (\<exists>p \<in> set (split_on c s). ch \<in> set p)"
proof (induction s)
  case Nil
  then show ?case by simp
next
  case (Cons x xs)
  obtain p ps where sp: "split_on c xs = p # ps"
    using split_on_not_Nil [of c xs] by (cases "split_on c xs") auto
  show ?case
  proof (cases "x = c")
    case True
    with Cons show ?thesis by auto
  next
    case False
    with Cons sp show ?thesis by auto
  qed
qed

lemma ipv4_ok_chars:
  assumes "ipv4_ok s" "ch \<in> set s"
  shows "is_digit ch \<or> ch = CHR ''.''"
proof -
  from set_split_on [OF assms(2), of "CHR ''.''"] show ?thesis
  proof
    assume "ch = CHR ''.''" then show ?thesis by simp
  next
    assume "\<exists>p \<in> set (split_on CHR ''.'' s). ch \<in> set p"
    then obtain p where p: "p \<in> set (split_on CHR ''.'' s)" "ch \<in> set p" by blast
    from assms(1) p(1) have "parse_octet_ok p"
      by (auto simp: ipv4_ok_def list_all_iff)
    with p(2) show ?thesis by (auto simp: parse_octet_ok_def list_all_iff)
  qed
qed

lemma hextets_ok_parts:
  assumes ok: "hextets_ok ps" and mem: "p \<in> set ps"
  shows "p = [] \<or> list_all is_hex_digit p"
proof -
  let ?n = "length ps"
  from mem obtain i where i: "i < ?n" "ps ! i = p" by (auto simp: in_set_conv_nth)
  let ?f = "filter (\<lambda>i. ps ! i = []) [1 ..< ?n - 1]"
  show ?thesis
  proof (cases ?f)
    case Nil
    with ok have "list_all parse_hextet_ok ps" by (simp add: hextets_ok_def)
    with mem show ?thesis by (auto simp: list_all_iff parse_hextet_ok_def)
  next
    case (Cons k ks)
    show ?thesis
    proof (cases ks)
      case (Cons a as)
      with \<open>?f = k # ks\<close> ok show ?thesis by (simp add: hextets_ok_def)
    next
      case Nil
      with \<open>?f = k # ks\<close> have f: "?f = [k]" by simp
      then have "k \<in> set ?f" by simp
      then have k: "1 \<le> k" "k < ?n - 1" "ps ! k = []" by auto
      define hi where "hi = (if hd ps = [] then k - 1 else k)"
      define lo where "lo = (if last ps = [] then (?n - k - 1) - 1 else ?n - k - 1)"
      from ok f have h1: "hd ps = [] \<Longrightarrow> hi = 0"
        and h2: "last ps = [] \<Longrightarrow> lo = 0"
        and h3: "list_all parse_hextet_ok (take hi ps)"
        and h4: "list_all parse_hextet_ok (drop (?n - lo) ps)"
        by (auto simp: hextets_ok_def Let_def hi_def lo_def split: if_splits)
      from i k have ne: "ps \<noteq> []" by auto
      have hd0: "hd ps = ps ! 0" using ne by (simp add: hd_conv_nth)
      have lastn: "last ps = ps ! (?n - 1)" using ne by (simp add: last_conv_nth)
      consider "i < k" | "i = k" | "k < i" by linarith
      then show ?thesis
      proof cases
        case 1
        show ?thesis
        proof (cases "hd ps = []")
          case True
          with h1 have "k = 1" using k by (simp add: hi_def)
          with 1 have "i = 0" by simp
          with True hd0 i show ?thesis by simp
        next
          case False
          then have "hi = k" by (simp add: hi_def)
          with 1 i have "ps ! i \<in> set (take hi ps)"
            by (metis in_set_conv_nth length_take min_less_iff_conj nth_take)
          with h3 i show ?thesis by (auto simp: list_all_iff parse_hextet_ok_def)
        qed
      next
        case 2
        with k i show ?thesis by simp
      next
        case 3
        show ?thesis
        proof (cases "last ps = []")
          case True
          with h2 have "?n - k - 1 \<le> 1" by (simp add: lo_def)
          with 3 i k have "i = ?n - 1" by linarith
          with True lastn i show ?thesis by simp
        next
          case False
          then have "lo = ?n - k - 1" by (simp add: lo_def)
          with k have "?n - lo = k + 1" by linarith
          with 3 i have "drop (?n - lo) ps ! (i - (k + 1)) = ps ! i"
            and "i - (k + 1) < length (drop (?n - lo) ps)"
            by simp_all
          then have "ps ! i \<in> set (drop (?n - lo) ps)"
            by (metis nth_mem)
          with h4 i show ?thesis by (auto simp: list_all_iff parse_hextet_ok_def)
        qed
      qed
    qed
  qed
qed

lemma split_scope_id_no_zone: "CHR ''%'' \<notin> set s \<Longrightarrow> split_scope_id s = Some s"
  by (simp add: split_scope_id_def Let_def takeWhile_eq_all_conv dropWhile_eq_Nil_conv)

lemma ipv6_int_ok_chars:
  assumes ok: "ipv6_int_ok s" and ch: "ch \<in> set s"
  shows "ip_literal_char ch"
proof -
  let ?ps = "split_on CHR '':'' s"
  from set_split_on [OF ch, of "CHR '':''"] show ?thesis
  proof
    assume "ch = CHR '':''" then show ?thesis by (simp add: ip_literal_char_def)
  next
    assume "\<exists>p \<in> set ?ps. ch \<in> set p"
    then obtain p where p: "p \<in> set ?ps" "ch \<in> set p" by blast
    have ne: "?ps \<noteq> []" by (rule split_on_not_Nil)
    show ?thesis
    proof (cases "CHR ''.'' \<in> set (last ?ps)")
      case False
      with ok have "hextets_ok ?ps" by (simp add: ipv6_int_ok_def Let_def)
      from hextets_ok_parts [OF this p(1)] p(2) show ?thesis
        by (auto simp: list_all_iff ip_literal_char_def)
    next
      case True
      with ok have v4: "ipv4_ok (last ?ps)"
        and hx: "hextets_ok (butlast ?ps @ [''0'', ''0''])"
        by (simp_all add: ipv6_int_ok_def Let_def)
      from ne have "?ps = butlast ?ps @ [last ?ps]" by simp
      with p(1) have "p \<in> set (butlast ?ps) \<or> p = last ?ps"
        by (metis Un_iff insert_iff list.set(2) set_append empty_iff list.set(1))
      then show ?thesis
      proof
        assume "p \<in> set (butlast ?ps)"
        then have "p \<in> set (butlast ?ps @ [''0'', ''0''])" by simp
        from hextets_ok_parts [OF hx this] p(2) show ?thesis
          by (auto simp: list_all_iff ip_literal_char_def)
      next
        assume "p = last ?ps"
        with v4 p(2) ipv4_ok_chars show ?thesis
          by (auto simp: ip_literal_char_def is_hex_digit_def)
      qed
    qed
  qed
qed

lemma valid_ip_chars:
  assumes "is_valid_ip ip" "CHR ''%'' \<notin> set ip"
  shows "list_all ip_literal_char ip"
proof -
  from assms(1) have "ipv4_ok ip \<or> ipv6_ok ip"
    by (auto simp: is_valid_ip_def validate_ip_def ip_address_ok_def split: if_splits)
  then show ?thesis
  proof
    assume "ipv4_ok ip"
    then show ?thesis using ipv4_ok_chars
      by (auto simp: list_all_iff ip_literal_char_def is_hex_digit_def)
  next
    assume "ipv6_ok ip"
    with assms(2) have "ipv6_int_ok ip"
      by (simp add: ipv6_ok_def split_scope_id_no_zone)
    then show ?thesis using ipv6_int_ok_chars by (auto simp: list_all_iff)
  qed
qed

section \<open>cache.py: the cache path of an entry\<close>

lemma replace_colons_inj:
  "CHR ''_'' \<notin> set a \<Longrightarrow> CHR ''_'' \<notin> set b \<Longrightarrow> replace_colons a = replace_colons b \<Longrightarrow> a = b"
proof (induction a arbitrary: b)
  case Nil
  then show ?case by (simp add: replace_colons_def)
next
  case (Cons x xs)
  then obtain y ys where b: "b = y # ys" by (cases b) (auto simp: replace_colons_def)
  with Cons.prems have "x = y" by (auto simp: replace_colons_def split: if_splits)
  moreover from Cons b have "xs = ys" by (auto simp: replace_colons_def)
  ultimately show ?case using b by simp
qed

lemma last_sep_unique:
  assumes "c \<notin> set m1" "c \<notin> set m2" "e1 @ c # m1 = e2 @ c # m2"
  shows "e1 = e2 \<and> m1 = m2"
proof -
  have tw: "rev (takeWhile (\<lambda>x. x \<noteq> c) (rev (e @ c # m))) = m" if "c \<notin> set m" for e m
  proof -
    have h: "takeWhile (\<lambda>x. x \<noteq> c) (rev m) = rev m"
      using that by (auto simp: takeWhile_eq_all_conv)
    show ?thesis by (simp add: takeWhile_tail h)
  qed
  from assms(3) have "rev (takeWhile (\<lambda>x. x \<noteq> c) (rev (e1 @ c # m1)))
                    = rev (takeWhile (\<lambda>x. x \<noteq> c) (rev (e2 @ c # m2)))" by simp
  with tw [OF assms(1)] tw [OF assms(2)] have "m1 = m2" by simp
  with assms(3) show ?thesis by simp
qed

lemma literal_no_underscore: "list_all ip_literal_char ip \<Longrightarrow> CHR ''_'' \<notin> set ip"
  by (auto simp: list_all_iff ip_literal_char_def is_hex_digit_def is_digit_def)

lemma method_suffix_no_underscore:
  "m \<in> set lookup_methods \<Longrightarrow> CHR ''_'' \<notin> set (m @ ''.json'')"
  by (auto simp: lookup_methods_def)

lemma cache_file_name_inj:
  assumes "list_all ip_literal_char ip1" "list_all ip_literal_char ip2"
    "m1 \<in> set lookup_methods" "m2 \<in> set lookup_methods"
    "cache_file_name ip1 m1 = cache_file_name ip2 m2"
  shows "ip1 = ip2 \<and> m1 = m2"
proof -
  from assms(5) have "replace_colons ip1 @ CHR ''_'' # (m1 @ ''.json'')
                    = replace_colons ip2 @ CHR ''_'' # (m2 @ ''.json'')"
    by (simp add: cache_file_name_def)
  from last_sep_unique [OF method_suffix_no_underscore [OF assms(3)]
                           method_suffix_no_underscore [OF assms(4)] this]
  have "replace_colons ip1 = replace_colons ip2" "m1 = m2" by simp_all
  with replace_colons_inj [OF literal_no_underscore [OF assms(1)]
                              literal_no_underscore [OF assms(2)]]
  show ?thesis by simp
qed

lemma cache_file_name_safe:
  assumes "list_all ip_literal_char ip" "m \<in> set lookup_methods"
  shows "list_all filename_safe_char (cache_file_name ip m)"
proof -
  have a: "list_all filename_safe_char (replace_colons ip)"
    using assms(1)
    by (auto simp: list_all_iff replace_colons_def ip_literal_char_def filename_safe_char_def
                   is_hex_digit_def is_ascii_letter_def)
  have b: "list_all filename_safe_char (m @ ''.json'')"
    using assms(2)
    by (auto simp: lookup_methods_def filename_safe_char_def is_ascii_letter_def is_digit_def)
  show ?thesis using a b by (simp add: cache_file_name_def filename_safe_char_def)
qed

lemma get_cache_path_plain:
  assumes "list_all filename_safe_char (cache_file_name ip m)"
  shows "get_cache_path self ip m = dir_prefix (cache_dir self) @ cache_file_name ip m"
proof -
  have "cache_file_name ip m \<noteq> []" by (simp add: cache_file_name_def)
  with assms have "hd (cache_file_name ip m) \<noteq> CHR ''/''"
    by (cases "cache_file_name ip m")
       (auto simp: filename_safe_char_def is_digit_def is_ascii_letter_def)
  then show ?thesis by (simp add: get_cache_path_def path_join_def)
qed

text \<open>
  Claim C9, as the code has it. For two distinct pairs of an identity and a method, where
  the identities are valid IP addresses without a zone (no \<^verbatim>\<open>%\<close>) and the methods are
  among the four labels, the cache paths differ; each path is the cache directory followed
  by the file name; the file name holds only letters, digits, dots, underscores and
  hyphens; and on such identities the replacement of colons by underscores loses nothing:
  two of them with the same escaped form are equal.
\<close>

theorem get_cache_path_distinct:
  assumes "is_valid_ip ip1" "CHR ''%'' \<notin> set ip1" "is_valid_ip ip2" "CHR ''%'' \<notin> set ip2"
    and "m1 \<in> set lookup_methods" "m2 \<in> set lookup_methods"
    and "(ip1, m1) \<noteq> (ip2, m2)"
  shows "get_cache_path self ip1 m1 \<noteq> get_cache_path self ip2 m2
       \<and> get_cache_path self ip1 m1 = dir_prefix (cache_dir self) @ cache_file_name ip1 m1
       \<and> list_all filename_safe_char (cache_file_name ip1 m1)
       \<and> (replace_colons ip1 = replace_colons ip2) = (ip1 = ip2)"
proof -
  have c1: "list_all ip_literal_char ip1" and c2: "list_all ip_literal_char ip2"
    using assms(1-4) by (simp_all add: valid_ip_chars)
  have s1: "list_all filename_safe_char (cache_file_name ip1 m1)"
    and s2: "list_all filename_safe_char (cache_file_name ip2 m2)"
    using c1 c2 assms(5,6) by (simp_all add: cache_file_name_safe)
  have "cache_file_name ip1 m1 \<noteq> cache_file_name ip2 m2"
    using cache_file_name_inj [OF c1 c2 assms(5,6)] assms(7) by auto
  then have "get_cache_path self ip1 m1 \<noteq> get_cache_path self ip2 m2"
    by (simp add: get_cache_path_plain [OF s1] get_cache_path_plain [OF s2])
  moreover have "(replace_colons ip1 = replace_colons ip2) = (ip1 = ip2)"
    using replace_colons_inj [OF literal_no_underscore [OF c1] literal_no_underscore [OF c2]]
    by auto
  ultimately show ?thesis using s1 get_cache_path_plain [OF s1] by simp
qed

theorem get_cache_path_distinct_witness:
  "is_valid_ip ''2001:4860:4860::8888'' \<and> CHR ''%'' \<notin> set ''2001:4860:4860::8888''
   \<and> is_valid_ip ''8.8.8.8'' \<and> CHR ''%'' \<notin> set ''8.8.8.8''
   \<and> ''auto'' \<in> set lookup_methods \<and> ''system'' \<in> set lookup_methods
   \<and> (''2001:4860:4860::8888'', ''auto'') \<noteq> (''8.8.8.8'', ''system'')
   \<and> get_cache_path \<lparr>cache_dir = ''data/cache'', ttl = 86400\<rparr> ''2001:4860:4860::8888'' ''auto''
       \<noteq> get_cache_path \<lparr>cache_dir = ''data/cache'', ttl = 86400\<rparr> ''8.8.8.8'' ''system''
   \<and> get_cache_path \<lparr>cache_dir = ''data/cache'', ttl = 86400\<rparr> ''2001:4860:4860::8888'' ''auto''
       = ''data/cache/2001_4860_4860__8888_auto.json''"
proof -
  have v1: "is_valid_ip ''2001:4860:4860::8888''" by code_simp
  have v2: "is_valid_ip ''8.8.8.8''" by code_simp
  have z1: "CHR ''%'' \<notin> set ''2001:4860:4860::8888''" by simp
  have z2: "CHR ''%'' \<notin> set ''8.8.8.8''" by simp
  have m1: "''auto'' \<in> set lookup_methods" and m2: "''system'' \<in> set lookup_methods"
    by (simp_all add: lookup_methods_def)
  have d: "(''2001:4860:4860::8888'', ''auto'') \<noteq> (''8.8.8.8'', ''system'')" by simp
  from get_cache_path_distinct [OF v1 z1 v2 z2 m1 m2 d,
         of "\<lparr>cache_dir = ''data/cache'', ttl = 86400\<rparr>"]
  have "get_cache_path \<lparr>cache_dir = ''data/cache'', ttl = 86400\<rparr> ''2001:4860:4860::8888'' ''auto''
       \<noteq> get_cache_path \<lparr>cache_dir = ''data/cache'', ttl = 86400\<rparr> ''8.8.8.8'' ''system''"
    by (rule conjunct1)
  moreover
  have "get_cache_path \<lparr>cache_dir = ''data/cache'', ttl = 86400\<rparr> ''2001:4860:4860::8888'' ''auto''
       = ''data/cache/2001_4860_4860__8888_auto.json''"
    by (simp add: get_cache_path_def path_join_def dir_prefix_def cache_file_name_def
                  replace_colons_def)
  ultimately
  have "get_cache_path \<lparr>cache_dir = ''data/cache'', ttl = 86400\<rparr> ''2001:4860:4860::8888'' ''auto''
       \<noteq> get_cache_path \<lparr>cache_dir = ''data/cache'', ttl = 86400\<rparr> ''8.8.8.8'' ''system''
     \<and> get_cache_path \<lparr>cache_dir = ''data/cache'', ttl = 86400\<rparr> ''2001:4860:4860::8888'' ''auto''
       = ''data/cache/2001_4860_4860__8888_auto.json''"
    by (rule conjI)
  with v1 v2 z1 z2 m1 m2 d show ?thesis by blast
qed

text \<open>
  The claim as stated fails on IPv6 addresses with a zone, which \<^verbatim>\<open>validate_ip\<close>
  accepts: a zone may hold both a colon and an underscore, and the two are escaped to the
  same character, so two distinct valid identities share one cache file.
\<close>

theorem get_cache_path_zone_collision:
  "is_valid_ip ''fe80::1%a:b'' \<and> is_valid_ip ''fe80::1%a_b''
   \<and> ''auto'' \<in> set lookup_methods
   \<and> (''fe80::1%a:b'', ''auto'') \<noteq> (''fe80::1%a_b'', ''auto'')
   \<and> get_cache_path \<lparr>cache_dir = ''data/cache'', ttl = 86400\<rparr> ''fe80::1%a:b'' ''auto''
       = get_cache_path \<lparr>cache_dir = ''data/cache'', ttl = 86400\<rparr> ''fe80::1%a_b'' ''auto''"
proof -
  have "is_valid_ip ''fe80::1%a:b''" by code_simp
  moreover have "is_valid_ip ''fe80::1%a_b''" by code_simp
  moreover have "get_cache_path \<lparr>cache_dir = ''data/cache'', ttl = 86400\<rparr> ''fe80::1%a:b'' ''auto''
       = get_cache_path \<lparr>cache_dir = ''data/cache'', ttl = 86400\<rparr> ''fe80::1%a_b'' ''auto''"
    by (simp add: get_cache_path_def cache_file_name_def replace_colons_def)
  ultimately show ?thesis by (simp add: lookup_methods_def)
qed

section \<open>cache.py: storing an entry\<close>

lemma json_ok_entry [simp]:
  "json_ok (PDict [(''timestamp'', PFloat now), (''result'', result)]) = json_ok result"
  by simp

lemma set_try_cases:
  "set_try env s now self ip method result =
     (let cache_file = get_cache_path self ip method;
          tmp = cache_file @ ''.tmp'';
          data = PDict [(''timestamp'', PFloat now), (''result'', result)]
      in if \<not> can_create env tmp then (Inl (Exc OSError ''Permission denied''), s)
         else if \<not> json_ok result
           then (Inl (Exc TypeError ''Object of type datetime is not JSON serializable''),
                 s\<lparr>files := AList.update tmp Invalid (files s),
                   trace := trace s @ [OpOpenW tmp]\<rparr>)
         else if \<not> can_write env tmp
           then (Inl (Exc OSError ''No space left on device''),
                 s\<lparr>files := AList.update tmp Invalid (files s),
                   trace := trace s @ [OpOpenW tmp]\<rparr>)
         else if \<not> can_replace env tmp cache_file
           then (Inl (Exc OSError ''Permission denied''),
                 s\<lparr>files := AList.update tmp (Doc data) (AList.update tmp Invalid (files s)),
                   trace := trace s @ [OpOpenW tmp, OpWrite tmp (Doc data)]\<rparr>)
         else (Inr True,
                 s\<lparr>files := AList.update cache_file (Doc data)
                              (AList.delete tmp
                                 (AList.update tmp (Doc data) (AList.update tmp Invalid (files s)))),
                   trace := trace s @ [OpOpenW tmp, OpWrite tmp (Doc data),
                                       OpReplace tmp cache_file]\<rparr>))"
  by (simp add: set_try_def Let_def open_write_def json_dump_def os_replace_def update_conv')

text \<open>
  Claim C6, as the code has it. \<^verbatim>\<open>set\<close> never raises: it returns a boolean. It refuses
  the absent record, None, returning False and leaving the file system as it was; this
  is its only test of the record, so the empty record is not refused. Where the record
  is one that \<^verbatim>\<open>json.dump\<close> can write, the temporary file can be created and written and
  the rename is allowed, it returns True. A record that \<^verbatim>\<open>json.dump\<close> cannot write, one
  that holds a \<^verbatim>\<open>datetime\<close> object, gives False. When it returns True it has opened the
  temporary file, written the document into it and renamed it onto the cache file, in
  this order and nothing else, and the cache file holds the document. When it returns
  False, on any failure, the cache file is what it was before.
\<close>

theorem CacheManager_set_behaviour:
  "(\<exists>b s'. CacheManager_set env s now self ip method result = (Inr b, s'))
   \<and> (result = PNone \<longrightarrow> CacheManager_set env s now self ip method result = (Inr False, s))
   \<and> (result \<noteq> PNone \<and> json_ok result
        \<and> can_create env (get_cache_path self ip method @ ''.tmp'')
        \<and> can_write env (get_cache_path self ip method @ ''.tmp'')
        \<and> can_replace env (get_cache_path self ip method @ ''.tmp'') (get_cache_path self ip method)
       \<longrightarrow> fst (CacheManager_set env s now self ip method result) = Inr True)
   \<and> (\<not> json_ok result
       \<longrightarrow> fst (CacheManager_set env s now self ip method result) = Inr False)
   \<and> (\<forall>s'. CacheManager_set env s now self ip method result = (Inr True, s')
        \<longrightarrow> result \<noteq> PNone \<and> json_ok result
          \<and> set_success_state s (get_cache_path self ip method)
               (PDict [(''timestamp'', PFloat now), (''result'', result)]) s')
   \<and> (\<forall>s'. CacheManager_set env s now self ip method result = (Inr False, s')
        \<longrightarrow> map_of (files s') (get_cache_path self ip method)
              = map_of (files s) (get_cache_path self ip method))"
  by (auto simp: CacheManager_set_def set_try_cases Let_def set_success_state_def
                 update_conv' delete_conv')

theorem CacheManager_set_behaviour_witness:
  "PDict [(''ip'', PStr ''8.8.8.8'')] \<noteq> PNone
   \<and> json_ok (PDict [(''ip'', PStr ''8.8.8.8'')])
   \<and> can_create all_allowed
         (get_cache_path \<lparr>cache_dir = ''data/cache'', ttl = 86400\<rparr> ''8.8.8.8'' ''auto'' @ ''.tmp'')
   \<and> can_write all_allowed
         (get_cache_path \<lparr>cache_dir = ''data/cache'', ttl = 86400\<rparr> ''8.8.8.8'' ''auto'' @ ''.tmp'')
   \<and> can_replace all_allowed
         (get_cache_path \<lparr>cache_dir = ''data/cache'', ttl = 86400\<rparr> ''8.8.8.8'' ''auto'' @ ''.tmp'')
         (get_cache_path \<lparr>cache_dir = ''data/cache'', ttl = 86400\<rparr> ''8.8.8.8'' ''auto'')
   \<and> fst (CacheManager_set all_allowed \<lparr>dirs = [''data/cache''], files = [], trace = []\<rparr> 1000
             \<lparr>cache_dir = ''data/cache'', ttl = 86400\<rparr> ''8.8.8.8'' ''auto''
             (PDict [(''ip'', PStr ''8.8.8.8'')])) = Inr True
   \<and> CacheManager_set all_allowed \<lparr>dirs = [''data/cache''], files = [], trace = []\<rparr> 1000
         \<lparr>cache_dir = ''data/cache'', ttl = 86400\<rparr> ''8.8.8.8'' ''auto'' PNone
       = (Inr False, \<lparr>dirs = [''data/cache''], files = [], trace = []\<rparr>)
   \<and> \<not> json_ok (PDict [(''ip'', PStr ''8.8.8.8''),
                         (''raw'', PDict [(''creation_date'', PDatetime ''1997-09-15 04:00:00'')])])
   \<and> fst (CacheManager_set all_allowed \<lparr>dirs = [''data/cache''], files = [], trace = []\<rparr> 1000
             \<lparr>cache_dir = ''data/cache'', ttl = 86400\<rparr> ''8.8.8.8'' ''auto''
             (PDict [(''ip'', PStr ''8.8.8.8''),
                     (''raw'', PDict [(''creation_date'', PDatetime ''1997-09-15 04:00:00'')])]))
       = Inr False"
  using CacheManager_set_behaviour
          [of all_allowed "\<lparr>dirs = [''data/cache''], files = [], trace = []\<rparr>" 1000
              "\<lparr>cache_dir = ''data/cache'', ttl = 86400\<rparr>" "''8.8.8.8''" "''auto''"
              "PDict [(''ip'', PStr ''8.8.8.8'')]"]
        CacheManager_set_behaviour
          [of all_allowed "\<lparr>dirs = [''data/cache''], files = [], trace = []\<rparr>" 1000
              "\<lparr>cache_dir = ''data/cache'', ttl = 86400\<rparr>" "''8.8.8.8''" "''auto''" PNone]
        CacheManager_set_behaviour
          [of all_allowed "\<lparr>dirs = [''data/cache''], files = [], trace = []\<rparr>" 1000
              "\<lparr>cache_dir = ''data/cache'', ttl = 86400\<rparr>" "''8.8.8.8''" "''auto''"
              "PDict [(''ip'', PStr ''8.8.8.8''),
                      (''raw'', PDict [(''creation_date'', PDatetime ''1997-09-15 04:00:00'')])]"]
  by (simp add: all_allowed_def)

text \<open>
  The claim as stated fails on the empty record: \<^verbatim>\<open>set\<close> tests \<^verbatim>\<open>result is None\<close> only,
  so the empty dictionary is written to the cache file and True is returned.
\<close>

theorem CacheManager_set_stores_empty_record:
  "CacheManager_set all_allowed \<lparr>dirs = [''data/cache''], files = [], trace = []\<rparr> 1000
     \<lparr>cache_dir = ''data/cache'', ttl = 86400\<rparr> ''8.8.8.8'' ''auto'' (PDict [])
   = (Inr True,
      \<lparr>dirs = [''data/cache''],
       files = [(''data/cache/8.8.8.8_auto.json'',
                 Doc (PDict [(''timestamp'', PFloat 1000), (''result'', PDict [])]))],
       trace = [OpOpenW ''data/cache/8.8.8.8_auto.json.tmp'',
                OpWrite ''data/cache/8.8.8.8_auto.json.tmp''
                  (Doc (PDict [(''timestamp'', PFloat 1000), (''result'', PDict [])])),
                OpReplace ''data/cache/8.8.8.8_auto.json.tmp''
                  ''data/cache/8.8.8.8_auto.json'']\<rparr>)"
  by (simp add: CacheManager_set_def set_try_def open_write_def json_dump_def os_replace_def
                all_allowed_def get_cache_path_def path_join_def dir_prefix_def
                cache_file_name_def replace_colons_def Let_def)

section \<open>cache.py: reading an entry and cleaning the cache\<close>

lemma CacheManager_get_never_raises:
  "\<exists>v. CacheManager_get env s now self ip method = Inr v"
  by (cases "get_try env s now self ip method") (simp_all add: CacheManager_get_def)




















section \<open>resolvers/base.py: the retrying lookup\<close>

lemma apply_rate_limit_facts:
  "\<exists>self' w' rw. apply_rate_limit (self, w) = (self', w') \<and> name self' = name self
      \<and> events w' = events w @ rw \<and> filter (\<lambda>e. \<not> is_rate_wait e) rw = []"
  by (auto simp: apply_rate_limit_def Let_def)

lemma retry_log_same: "retry_log k k = [Attempt k]"
  by (simp add: retry_log_def)

lemma retry_log_step:
  "j < k \<Longrightarrow> retry_log j k = Attempt j # Backoff (2 * int (Suc j)) # retry_log (Suc j) k"
  by (simp add: retry_log_def upt_conv_Cons)

lemma lookup_loop_success:
  "0 \<le> j \<Longrightarrow> nat j \<le> k \<Longrightarrow> int k \<le> max_retries \<Longrightarrow>
   (\<forall>i. nat j \<le> i \<and> i < k \<longrightarrow> (\<exists>e. attempt_result lib perform ip (name self) i = Inl e)) \<Longrightarrow>
   attempt_result lib perform ip (name self) k = Inr result \<Longrightarrow>
   \<exists>self' w' new. lookup_loop lib perform ip max_retries j (self, w)
                    = (Inr (PDict result), (self', w'))
      \<and> name self' = name self \<and> events w' = events w @ new
      \<and> filter (\<lambda>e. \<not> is_rate_wait e) new = retry_log (nat j) k"
proof (induction "k - nat j" arbitrary: j self w)
  case 0
  then have jk: "nat j = k" by simp
  from apply_rate_limit_facts [of self w] obtain self1 w1 rw where rl:
    "apply_rate_limit (self, w) = (self1, w1)" "name self1 = name self"
    "events w1 = events w @ rw" "filter (\<lambda>e. \<not> is_rate_wait e) rw = []"
    by blast
  from "0.prems" jk have le: "j \<le> max_retries" by linarith
  have "lookup_loop lib perform ip max_retries j (self, w)
          = (Inr (PDict result), (self1, w1\<lparr>events := events w1 @ [Attempt k]\<rparr>))"
    using le rl(1,2) "0.prems"(5) jk
    by (subst lookup_loop.simps) (simp add: Let_def)
  moreover have "events (w1\<lparr>events := events w1 @ [Attempt k]\<rparr>)
                   = events w @ (rw @ [Attempt k])"
    using rl(3) by simp
  moreover have "filter (\<lambda>e. \<not> is_rate_wait e) (rw @ [Attempt k]) = retry_log (nat j) k"
    using rl(4) jk by (simp add: retry_log_same)
  ultimately show ?case using rl(2) by blast
next
  case (Suc d)
  then have lt: "nat j < k" by linarith
  with Suc.prems obtain e where e: "attempt_result lib perform ip (name self) (nat j) = Inl e"
    by blast
  from apply_rate_limit_facts [of self w] obtain self1 w1 rw where rl:
    "apply_rate_limit (self, w) = (self1, w1)" "name self1 = name self"
    "events w1 = events w @ rw" "filter (\<lambda>e. \<not> is_rate_wait e) rw = []"
    by blast
  from Suc.prems lt have le: "j \<le> max_retries" and le1: "j + 1 \<le> max_retries"
    by linarith+
  let ?w1 = "w1\<lparr>events := events w1 @ [Attempt (nat j)]\<rparr>"
  let ?w2 = "?w1\<lparr>clock := clock ?w1 + real_of_int ((j + 1) * 2),
                 events := events ?w1 @ [Backoff ((j + 1) * 2)]\<rparr>"
  have unfold: "lookup_loop lib perform ip max_retries j (self, w)
          = lookup_loop lib perform ip max_retries (j + 1) (self1, ?w2)"
    using le le1 rl(1,2) e
    by (subst lookup_loop.simps) (simp add: Let_def)
  have nj: "nat (j + 1) = Suc (nat j)" using Suc.prems(1) by simp
  have d: "d = k - nat (j + 1)" using Suc.hyps(2) nj by simp
  have p1: "0 \<le> j + 1" using Suc.prems(1) by simp
  have p2: "nat (j + 1) \<le> k" using lt nj by simp
  have p4: "\<forall>i. nat (j + 1) \<le> i \<and> i < k
               \<longrightarrow> (\<exists>e. attempt_result lib perform ip (name self1) i = Inl e)"
    using Suc.prems(4) rl(2) nj by auto
  have p5: "attempt_result lib perform ip (name self1) k = Inr result"
    using Suc.prems(5) rl(2) by simp
  from Suc.hyps(1) [OF d p1 p2 Suc.prems(3) p4 p5, of ?w2]
  obtain self' w' new where r:
    "lookup_loop lib perform ip max_retries (j + 1) (self1, ?w2)
       = (Inr (PDict result), (self', w'))"
    "name self' = name self1" "events w' = events ?w2 @ new"
    "filter (\<lambda>e. \<not> is_rate_wait e) new = retry_log (nat (j + 1)) k"
    by blast
  have ev: "events w' = events w @ (rw @ [Attempt (nat j), Backoff ((j + 1) * 2)] @ new)"
    using r(3) rl(3) by simp
  have "(j + 1) * 2 = 2 * int (Suc (nat j))" using Suc.prems(1) by simp
  then have fl: "filter (\<lambda>e. \<not> is_rate_wait e)
                   (rw @ [Attempt (nat j), Backoff ((j + 1) * 2)] @ new) = retry_log (nat j) k"
    using rl(4) r(4) nj retry_log_step [OF lt] by simp
  from unfold r(1,2) rl(2) ev fl show ?case by (metis (no_types))
qed

lemma lookup_loop_exhausted:
  "0 \<le> j \<Longrightarrow> j \<le> max_retries \<Longrightarrow>
   (\<forall>i. nat j \<le> i \<and> i < nat max_retries
        \<longrightarrow> (\<exists>e. attempt_result lib perform ip (name self) i = Inl e)) \<Longrightarrow>
   attempt_result lib perform ip (name self) (nat max_retries) = Inl e \<Longrightarrow>
   \<exists>self' w' new. lookup_loop lib perform ip max_retries j (self, w)
                    = (Inl (Exc ValueError (''Lookup failed: '' @ exc_str e)), (self', w'))
      \<and> name self' = name self \<and> events w' = events w @ new
      \<and> filter (\<lambda>e. \<not> is_rate_wait e) new = retry_log (nat j) (nat max_retries)"
proof (induction "nat max_retries - nat j" arbitrary: j self w)
  case 0
  then have jk: "j = max_retries" by linarith
  from apply_rate_limit_facts [of self w] obtain self1 w1 rw where rl:
    "apply_rate_limit (self, w) = (self1, w1)" "name self1 = name self"
    "events w1 = events w @ rw" "filter (\<lambda>e. \<not> is_rate_wait e) rw = []"
    by blast
  have "lookup_loop lib perform ip max_retries j (self, w)
          = (Inl (Exc ValueError (''Lookup failed: '' @ exc_str e)),
             (self1, w1\<lparr>events := events w1 @ [Attempt (nat j)]\<rparr>))"
    using rl(1,2) "0.prems"(4) jk
    by (subst lookup_loop.simps) (simp add: Let_def)
  moreover have "events (w1\<lparr>events := events w1 @ [Attempt (nat j)]\<rparr>)
                   = events w @ (rw @ [Attempt (nat j)])"
    using rl(3) by simp
  moreover have "filter (\<lambda>e. \<not> is_rate_wait e) (rw @ [Attempt (nat j)])
                   = retry_log (nat j) (nat max_retries)"
    using rl(4) jk by (simp add: retry_log_same)
  ultimately show ?case using rl(2) by blast
next
  case (Suc d)
  then have lt: "nat j < nat max_retries" by linarith
  with Suc.prems obtain e0 where
    e0: "attempt_result lib perform ip (name self) (nat j) = Inl e0"
    by blast
  from apply_rate_limit_facts [of self w] obtain self1 w1 rw where rl:
    "apply_rate_limit (self, w) = (self1, w1)" "name self1 = name self"
    "events w1 = events w @ rw" "filter (\<lambda>e. \<not> is_rate_wait e) rw = []"
    by blast
  from Suc.prems lt have le1: "j + 1 \<le> max_retries" by linarith
  let ?w1 = "w1\<lparr>events := events w1 @ [Attempt (nat j)]\<rparr>"
  let ?w2 = "?w1\<lparr>clock := clock ?w1 + real_of_int ((j + 1) * 2),
                 events := events ?w1 @ [Backoff ((j + 1) * 2)]\<rparr>"
  have unfold: "lookup_loop lib perform ip max_retries j (self, w)
          = lookup_loop lib perform ip max_retries (j + 1) (self1, ?w2)"
    using Suc.prems(2) le1 rl(1,2) e0
    by (subst lookup_loop.simps) (simp add: Let_def)
  have nj: "nat (j + 1) = Suc (nat j)" using Suc.prems(1) by simp
  have d: "d = nat max_retries - nat (j + 1)" using Suc.hyps(2) nj by simp
  have p1: "0 \<le> j + 1" using Suc.prems(1) by simp
  have p3: "\<forall>i. nat (j + 1) \<le> i \<and> i < nat max_retries
               \<longrightarrow> (\<exists>e. attempt_result lib perform ip (name self1) i = Inl e)"
    using Suc.prems(3) rl(2) nj by auto
  have p4: "attempt_result lib perform ip (name self1) (nat max_retries) = Inl e"
    using Suc.prems(4) rl(2) by simp
  from Suc.hyps(1) [OF d p1 le1 p3 p4, of ?w2]
  obtain self' w' new where r:
    "lookup_loop lib perform ip max_retries (j + 1) (self1, ?w2)
       = (Inl (Exc ValueError (''Lookup failed: '' @ exc_str e)), (self', w'))"
    "name self' = name self1" "events w' = events ?w2 @ new"
    "filter (\<lambda>e. \<not> is_rate_wait e) new = retry_log (nat (j + 1)) (nat max_retries)"
    by blast
  have ev: "events w' = events w @ (rw @ [Attempt (nat j), Backoff ((j + 1) * 2)] @ new)"
    using r(3) rl(3) by simp
  have "(j + 1) * 2 = 2 * int (Suc (nat j))" using Suc.prems(1) by simp
  then have fl: "filter (\<lambda>e. \<not> is_rate_wait e)
                   (rw @ [Attempt (nat j), Backoff ((j + 1) * 2)] @ new)
                 = retry_log (nat j) (nat max_retries)"
    using rl(4) r(4) nj retry_log_step [OF lt] by simp
  from unfold r(1,2) rl(2) ev fl show ?case by (metis (no_types))
qed

lemma lookup_loop_negative:
  "max_retries < 0 \<Longrightarrow> lookup_loop lib perform ip max_retries 0 st = (Inr PNone, st)"
  by (subst lookup_loop.simps) simp

lemma attempts_retry_log: "j \<le> k \<Longrightarrow> length (filter is_attempt (retry_log j k)) = Suc k - j"
proof (induction "k - j" arbitrary: j)
  case 0
  then show ?case by (simp add: retry_log_same)
next
  case (Suc d)
  then have lt: "j < k" by simp
  with Suc have "length (filter is_attempt (retry_log (Suc j) k)) = Suc k - Suc j" by simp
  with lt show ?case by (simp add: retry_log_step)
qed

lemma all_fail_iff:
  "all_fail lib perform ip nm k
     \<longleftrightarrow> (\<forall>i < k. \<exists>e. attempt_result lib perform ip nm i = Inl e)"
proof -
  have "(case x of Inl e \<Rightarrow> True | Inr r \<Rightarrow> False) \<longleftrightarrow> (\<exists>e. x = Inl e)"
    for x :: "pyexc + pydict"
    by (cases x) auto
  then show ?thesis by (auto simp: all_fail_def list_all_iff)
qed

lemma new_events_append:
  "events w' = events w @ new \<Longrightarrow>
   new_events w w' = filter (\<lambda>e. \<not> is_rate_wait e) new"
  by (simp add: new_events_def)

lemma normalize_fields:
  assumes "normalize_whois_result lib raw_result source = Inr result"
  shows "map_of result ''ip'' = Some (norm_ip raw_result)"
    and "map_of result ''raw'' = Some (PDict raw_result)"
    and "map_of result ''source'' = Some (PStr source)"
    and "map fst result = [''ip'', ''network'', ''asn'', ''organization'', ''country'',
                           ''city'', ''registered'', ''source'', ''raw'']"
  using assms by (auto simp: normalize_whois_result_def split: sum.splits)

lemma normalize_well_formed:
  assumes "normalize_whois_result lib raw_result source = Inr result"
  shows "wf_dict result \<and> has_source result \<and> source_of result = source"
  using normalize_fields(3,4) [OF assms]
  by (simp add: wf_dict_def has_source_def source_of_def)

lemma attempt_result_ip:
  assumes "attempt_result lib perform ip nm k = Inr result"
  shows "\<exists>raw_result. perform k = Inr raw_result
           \<and> map_of result ''ip''
               = Some (if py_in ''ip'' raw_result then py_get raw_result ''ip'' else PStr ip)
           \<and> (\<exists>raw'. map_of result ''raw'' = Some (PDict raw') \<and> py_in ''ip'' raw')"
proof -
  from assms obtain raw_result where p: "perform k = Inr raw_result"
    by (cases "perform k") (auto simp: attempt_result_def)
  let ?raw = "if py_in ''ip'' raw_result then raw_result
              else py_set raw_result ''ip'' (PStr ip)"
  from assms p have n: "normalize_whois_result lib ?raw nm = Inr result"
    by (simp add: attempt_result_def)
  have has: "py_in ''ip'' ?raw" by (simp add: py_in_def map_of_py_set)
  then have "norm_ip ?raw = py_get ?raw ''ip''" by (simp add: norm_ip_def)
  also have "\<dots> = (if py_in ''ip'' raw_result then py_get raw_result ''ip'' else PStr ip)"
    by (simp add: py_get_def py_get_default_def map_of_py_set)
  finally have "map_of result ''ip''
      = Some (if py_in ''ip'' raw_result then py_get raw_result ''ip'' else PStr ip)"
    using normalize_fields(1) [OF n] by simp
  with p has normalize_fields(2) [OF n] show ?thesis by blast
qed

lemma lookup_success:
  assumes v: "is_valid_ip ip" and k: "int k \<le> max_retries"
    and f: "all_fail lib perform ip (name self) k"
    and s: "attempt_result lib perform ip (name self) k = Inr result"
  shows "\<exists>self' w'. lookup lib perform ip max_retries (self, w)
                      = (Inr (PDict result), (self', w'))
           \<and> new_events w w' = retry_log 0 k"
proof -
  from v have val: "validate_ip ip = Inr ()"
    by (auto simp: is_valid_ip_def split: sum.splits)
  from f have f': "\<forall>i. nat 0 \<le> i \<and> i < k
                     \<longrightarrow> (\<exists>e. attempt_result lib perform ip (name self) i = Inl e)"
    by (simp add: all_fail_iff)
  from lookup_loop_success [of 0 k max_retries lib perform ip self result w, OF _ _ k f' s]
  obtain self' w' new where
    "lookup_loop lib perform ip max_retries 0 (self, w) = (Inr (PDict result), (self', w'))"
    "events w' = events w @ new" "filter (\<lambda>e. \<not> is_rate_wait e) new = retry_log 0 k"
    by auto
  with val new_events_append [of w' w new] show ?thesis
    by (auto simp: lookup_def)
qed

lemma lookup_exhausted:
  assumes v: "is_valid_ip ip" and m: "0 \<le> max_retries"
    and f: "all_fail lib perform ip (name self) (nat max_retries)"
    and l: "attempt_result lib perform ip (name self) (nat max_retries) = Inl e"
  shows "\<exists>self' w'. lookup lib perform ip max_retries (self, w)
                      = (Inl (Exc ValueError (''Lookup failed: '' @ exc_str e)), (self', w'))
           \<and> new_events w w' = retry_log 0 (nat max_retries)"
proof -
  from v have val: "validate_ip ip = Inr ()"
    by (auto simp: is_valid_ip_def split: sum.splits)
  from f have f': "\<forall>i. nat 0 \<le> i \<and> i < nat max_retries
                     \<longrightarrow> (\<exists>e. attempt_result lib perform ip (name self) i = Inl e)"
    by (simp add: all_fail_iff)
  from lookup_loop_exhausted [of 0 max_retries lib perform ip self e w, OF _ m f' l]
  obtain self' w' new where
    "lookup_loop lib perform ip max_retries 0 (self, w)
       = (Inl (Exc ValueError (''Lookup failed: '' @ exc_str e)), (self', w'))"
    "events w' = events w @ new"
    "filter (\<lambda>e. \<not> is_rate_wait e) new = retry_log 0 (nat max_retries)"
    by auto
  with val new_events_append [of w' w new] show ?thesis
    by (auto simp: lookup_def)
qed

lemma lookup_total:
  assumes v: "is_valid_ip ip" and m: "0 \<le> max_retries"
  shows "\<exists>r self' w' k. lookup lib perform ip max_retries (self, w) = (r, (self', w'))
           \<and> int k \<le> max_retries \<and> new_events w w' = retry_log 0 k"
proof (cases "\<exists>k. int k \<le> max_retries
                  \<and> (\<exists>r. attempt_result lib perform ip (name self) k = Inr r)")
  case True
  define P where "P k \<longleftrightarrow> int k \<le> max_retries
                  \<and> (\<exists>r. attempt_result lib perform ip (name self) k = Inr r)" for k
  from True have "\<exists>k. P k" by (simp add: P_def)
  then have least: "P (LEAST k. P k)" by (rule LeastI_ex)
  let ?k = "LEAST k. P k"
  from least obtain r where r: "int ?k \<le> max_retries"
    "attempt_result lib perform ip (name self) ?k = Inr r" by (auto simp: P_def)
  have "all_fail lib perform ip (name self) ?k"
    unfolding all_fail_iff
  proof (intro allI impI)
    fix i assume i: "i < ?k"
    then have "\<not> P i" by (rule not_less_Least)
    moreover from i r(1) have "int i \<le> max_retries" by linarith
    ultimately show "\<exists>e. attempt_result lib perform ip (name self) i = Inl e"
      by (cases "attempt_result lib perform ip (name self) i") (auto simp: P_def)
  qed
  from lookup_success [OF v r(1) this r(2), of w] r(1) show ?thesis by blast
next
  case False
  then have all: "\<And>i. int i \<le> max_retries
                   \<Longrightarrow> \<exists>e. attempt_result lib perform ip (name self) i = Inl e"
    by (metis sum.exhaust)
  from m have "int (nat max_retries) \<le> max_retries" by simp
  from all [OF this] obtain e where
    e: "attempt_result lib perform ip (name self) (nat max_retries) = Inl e" by blast
  have "all_fail lib perform ip (name self) (nat max_retries)"
    unfolding all_fail_iff using all m by (simp add: nat_less_iff)
  from lookup_exhausted [OF v m this e, of w] m show ?thesis
    by (metis int_nat_eq order_refl)
qed

text \<open>
  Claim C8. For a valid identity and a retry bound that is not negative, \<^verbatim>\<open>lookup\<close>
  makes the attempts 0, 1, 2, ... in order, at most \<^verbatim>\<open>1 + max_retries\<close> of them, and
  before the attempt numbered \<^verbatim>\<open>i > 0\<close> it sleeps \<^verbatim>\<open>2 * i\<close> seconds (the log is
  \<^verbatim>\<open>retry_log 0 k\<close>). Where the attempts before \<^verbatim>\<open>k\<close> fail and attempt \<^verbatim>\<open>k\<close> succeeds
  it returns the record of that attempt, normalized from raw data that holds the
  identity under \<^verbatim>\<open>ip\<close>: put there by \<^verbatim>\<open>lookup\<close> where the source left it out. Where
  all \<^verbatim>\<open>1 + max_retries\<close> attempts fail it raises a ValueError whose message is
  \<^verbatim>\<open>Lookup failed:\<close> followed by the message of the last error.
\<close>

theorem lookup_retries_with_backoff:
  assumes "is_valid_ip ip" and "0 \<le> max_retries"
  shows "(\<exists>r self' w' k. lookup lib perform ip max_retries (self, w) = (r, (self', w'))
            \<and> int k \<le> max_retries \<and> new_events w w' = retry_log 0 k
            \<and> int (length (filter is_attempt (new_events w w'))) \<le> 1 + max_retries)
     \<and> (\<forall>k result. int k \<le> max_retries \<and> all_fail lib perform ip (name self) k
            \<and> attempt_result lib perform ip (name self) k = Inr result
          \<longrightarrow> (\<exists>self' w'. lookup lib perform ip max_retries (self, w)
                              = (Inr (PDict result), (self', w'))
                   \<and> new_events w w' = retry_log 0 k)
              \<and> (\<exists>raw_result. perform k = Inr raw_result
                   \<and> map_of result ''ip''
                       = Some (if py_in ''ip'' raw_result then py_get raw_result ''ip''
                               else PStr ip)
                   \<and> (\<exists>raw'. map_of result ''raw'' = Some (PDict raw') \<and> py_in ''ip'' raw')))
     \<and> (\<forall>e. all_fail lib perform ip (name self) (nat max_retries)
            \<and> attempt_result lib perform ip (name self) (nat max_retries) = Inl e
          \<longrightarrow> (\<exists>self' w'. lookup lib perform ip max_retries (self, w)
                   = (Inl (Exc ValueError (''Lookup failed: '' @ exc_str e)), (self', w'))
                 \<and> new_events w w' = retry_log 0 (nat max_retries)))"
proof -
  from lookup_total [OF assms, of lib perform self w] obtain r self' w' k where t:
    "lookup lib perform ip max_retries (self, w) = (r, (self', w'))"
    "int k \<le> max_retries" "new_events w w' = retry_log 0 k"
    by blast
  have "length (filter is_attempt (retry_log 0 k)) = Suc k"
    using attempts_retry_log [of 0 k] by simp
  with t(2,3) have "int (length (filter is_attempt (new_events w w'))) \<le> 1 + max_retries"
    by simp
  with t have one: "\<exists>r self' w' k. lookup lib perform ip max_retries (self, w) = (r, (self', w'))
            \<and> int k \<le> max_retries \<and> new_events w w' = retry_log 0 k
            \<and> int (length (filter is_attempt (new_events w w'))) \<le> 1 + max_retries"
    by blast
  show ?thesis
    using one lookup_success [OF assms(1)] attempt_result_ip
          lookup_exhausted [OF assms] by (intro conjI allI impI) blast+
qed

theorem lookup_retries_with_backoff_witness:
  "is_valid_ip ''8.8.8.8'' \<and> (0::int) \<le> 2 \<and> int 2 \<le> 2
   \<and> all_fail example_lib
        (\<lambda>k. if k < 2 then Inl (Exc OSError ''timed out'') else Inr [(''asn'', PStr ''AS15169'')])
        ''8.8.8.8''
        (name \<lparr>name = ''IPWhoisResolver'', rate_limit = 1, last_request_time = 0\<rparr>) 2
   \<and> (\<exists>self' w'.
         lookup example_lib
           (\<lambda>k. if k < 2 then Inl (Exc OSError ''timed out'')
                 else Inr [(''asn'', PStr ''AS15169'')])
           ''8.8.8.8'' 2
           (\<lparr>name = ''IPWhoisResolver'', rate_limit = 1, last_request_time = 0\<rparr>,
            \<lparr>clock = 0, events = []\<rparr>)
         = (Inr (PDict [(''ip'', PStr ''8.8.8.8''), (''network'', PNone),
                        (''asn'', PStr ''15169''), (''organization'', PNone),
                        (''country'', PNone), (''city'', PNone), (''registered'', PNone),
                        (''source'', PStr ''IPWhoisResolver''),
                        (''raw'', PDict [(''asn'', PStr ''AS15169''),
                                         (''ip'', PStr ''8.8.8.8'')])]),
            (self', w'))
         \<and> new_events \<lparr>clock = 0, events = []\<rparr> w'
             = [Attempt 0, Backoff 2, Attempt 1, Backoff 4, Attempt 2])
   \<and> all_fail example_lib (\<lambda>k. Inl (Exc OSError ''timed out'')) ''8.8.8.8''
        (name \<lparr>name = ''IPWhoisResolver'', rate_limit = 1, last_request_time = 0\<rparr>) (nat 2)
   \<and> (\<exists>self' w'.
         lookup example_lib (\<lambda>k. Inl (Exc OSError ''timed out'')) ''8.8.8.8'' 2
           (\<lparr>name = ''IPWhoisResolver'', rate_limit = 1, last_request_time = 0\<rparr>,
            \<lparr>clock = 0, events = []\<rparr>)
         = (Inl (Exc ValueError ''Lookup failed: timed out''), (self', w'))
         \<and> new_events \<lparr>clock = 0, events = []\<rparr> w'
             = [Attempt 0, Backoff 2, Attempt 1, Backoff 4, Attempt 2])"
proof -
  let ?ok = "\<lambda>k::nat. if k < 2 then Inl (Exc OSError ''timed out'')
                      else Inr [(''asn'', PStr ''AS15169'')] :: pyexc + pydict"
  let ?bad = "\<lambda>k::nat. Inl (Exc OSError ''timed out'') :: pyexc + pydict"
  let ?self = "\<lparr>name = ''IPWhoisResolver'', rate_limit = 1, last_request_time = 0\<rparr>"
  let ?w = "\<lparr>clock = 0, events = []\<rparr>"
  let ?rec = "[(''ip'', PStr ''8.8.8.8''), (''network'', PNone),
               (''asn'', PStr ''15169''), (''organization'', PNone),
               (''country'', PNone), (''city'', PNone), (''registered'', PNone),
               (''source'', PStr ''IPWhoisResolver''),
               (''raw'', PDict [(''asn'', PStr ''AS15169''), (''ip'', PStr ''8.8.8.8'')])]"
  have v: "is_valid_ip ''8.8.8.8''" by code_simp
  have m: "(0::int) \<le> 2" by simp
  have k: "int 2 \<le> 2" by simp
  have rl: "retry_log 0 2 = [Attempt 0, Backoff 2, Attempt 1, Backoff 4, Attempt 2]"
    by (simp add: retry_log_def upt_rec)
  have f1: "all_fail example_lib ?ok ''8.8.8.8'' (name ?self) 2"
    by (simp add: all_fail_iff attempt_result_def)
  have s1: "attempt_result example_lib ?ok ''8.8.8.8'' (name ?self) 2 = Inr ?rec"
    by (simp add: attempt_result_def normalize_whois_result_def norm_organization_def
                  norm_ip_def norm_network_def norm_asn_def norm_country_def norm_city_def
                  norm_registered_def py_in_def py_set_def py_get_def py_get_default_def
                  extract_asn_def py_str_def match_digits_def is_digit_def)
  have f2: "all_fail example_lib ?bad ''8.8.8.8'' (name ?self) (nat 2)"
    by (simp add: all_fail_iff attempt_result_def)
  have s2: "attempt_result example_lib ?bad ''8.8.8.8'' (name ?self) (nat 2)
              = Inl (Exc OSError ''timed out'')"
    by (simp add: attempt_result_def)
  from lookup_retries_with_backoff [OF v m, of example_lib ?ok ?self ?w] k f1 s1
  have a: "\<exists>self' w'. lookup example_lib ?ok ''8.8.8.8'' 2 (?self, ?w)
                         = (Inr (PDict ?rec), (self', w'))
             \<and> new_events ?w w' = retry_log 0 2"
    by blast
  from lookup_retries_with_backoff [OF v m, of example_lib ?bad ?self ?w] f2 s2
  have b: "\<exists>self' w'. lookup example_lib ?bad ''8.8.8.8'' 2 (?self, ?w)
                         = (Inl (Exc ValueError (''Lookup failed: ''
                                                  @ exc_str (Exc OSError ''timed out''))),
                            (self', w'))
             \<and> new_events ?w w' = retry_log 0 (nat 2)"
    by blast
  have n2: "nat 2 = 2" by simp
  from a b v m k f1 f2 show ?thesis
    unfolding rl n2 by simp
qed

section \<open>The parser of the system resolver\<close>

lemma parse_key_fold:
  "distinct (map fst ps) \<Longrightarrow>
   map_of (foldl (parse_key line) r ps) key =
     (case map_of ps key of
        None \<Rightarrow> map_of r key
      | Some pl \<Rightarrow> (case first_match pl line of
                     Some v \<Rightarrow> Some (PStr v)
                   | None \<Rightarrow> map_of r key))"
proof (induction ps arbitrary: r)
  case Nil
  show ?case by simp
next
  case (Cons p ps)
  obtain k pl where p: "p = (k, pl)" by (cases p)
  from Cons.prems p have d: "distinct (map fst ps)" and nk: "k \<notin> fst ` set ps" by auto
  from nk have none: "map_of ps k = None" by (simp add: map_of_eq_None_iff)
  have step: "map_of (parse_key line r (k, pl)) key =
      (if key = k then (case first_match pl line of
                          Some v \<Rightarrow> Some (PStr v)
                        | None \<Rightarrow> map_of r key)
       else map_of r key)"
    by (simp add: parse_key_def map_of_py_set split: option.splits)
  show ?case
  proof (cases "key = k")
    case True
    with Cons.IH [OF d, of "parse_key line r (k, pl)"] p none step show ?thesis by simp
  next
    case False
    with Cons.IH [OF d, of "parse_key line r (k, pl)"] p step show ?thesis
      by (simp split: option.splits)
  qed
qed

lemma patterns_distinct: "distinct (map fst patterns)"
  by (simp add: patterns_def)

lemma parse_line_field:
  "map_of (parse_line r l) key =
     (case line_value key l of Some v \<Rightarrow> Some (PStr v) | None \<Rightarrow> map_of r key)"
  by (simp add: parse_line_def line_value_def Let_def parse_key_fold [OF patterns_distinct]
           split: option.splits)

lemma last_value_alt:
  "last_value key ls =
     (if filter (\<lambda>l. line_value key l \<noteq> None) ls = [] then None
      else line_value key (last (filter (\<lambda>l. line_value key l \<noteq> None) ls)))"
proof (cases "filter (\<lambda>l. line_value key l \<noteq> None) ls")
  case Nil
  then show ?thesis by (simp add: last_value_def)
next
  case (Cons m ms)
  then show ?thesis unfolding last_value_def by (simp only: list.case) simp
qed

lemma last_value_snoc:
  "last_value key (ls @ [l]) =
     (case line_value key l of Some v \<Rightarrow> Some v | None \<Rightarrow> last_value key ls)"
proof (cases "line_value key l")
  case None
  then show ?thesis by (simp add: last_value_alt)
next
  case (Some v)
  then show ?thesis by (simp add: last_value_alt)
qed

lemma parse_lines_field:
  "map_of (foldl parse_line r ls) key =
     (case last_value key ls of Some v \<Rightarrow> Some (PStr v) | None \<Rightarrow> map_of r key)"
proof (induction ls rule: rev_induct)
  case Nil
  show ?case by (simp add: last_value_def)
next
  case (snoc l ls)
  then show ?case
    by (simp add: parse_line_field last_value_snoc split: option.splits)
qed

lemma patterns_keys:
  "key \<in> {''organization'', ''country'', ''asn'', ''network'', ''registered''}
   \<Longrightarrow> key \<noteq> ''ip''"
  by auto

text \<open>
  Claim C4, as the code has it. For every output of whois and each of the fields
  organization, country, asn, network and registered, the parsed record holds for the
  field what the \<^emph>\<open>last\<close> line with a value for it gives (a line that is not empty and no
  comment, and in which one of the field's patterns is found; within the line the first
  pattern of the field's list that matches decides), and it has no entry for the field
  when no line has a value. The assignment \<^verbatim>\<open>result[key] = ...\<close> is not guarded, so a
  later line with a value overwrites the field whatever it held.
\<close>

theorem parse_whois_output_last_line_wins:
  assumes "key \<in> {''organization'', ''country'', ''asn'', ''network'', ''registered''}"
  shows "map_of (parse_whois_output output ip) key
           = map_option PStr (last_value key (splitlines output))
         \<and> (\<forall>r l v. line_value key l = Some v
               \<longrightarrow> map_of (parse_line r l) key = Some (PStr v))"
proof -
  from assms have "key \<noteq> ''ip''" by (rule patterns_keys)
  then have "map_of (parse_whois_output output ip) key
           = map_option PStr (last_value key (splitlines output))"
    by (simp add: parse_whois_output_def parse_lines_field split: option.splits)
  moreover have "\<forall>r l v. line_value key l = Some v
               \<longrightarrow> map_of (parse_line r l) key = Some (PStr v)"
    by (simp add: parse_line_field)
  ultimately show ?thesis by simp
qed

theorem parse_whois_output_last_line_wins_witness:
  "''country'' \<in> {''organization'', ''country'', ''asn'', ''network'', ''registered''}
   \<and> line_value ''country'' ''country: DE'' = Some ''DE''
   \<and> last_value ''country'' (splitlines ''Country: US\<newline>descr: Example\<newline>country: DE'')
       = Some ''DE''
   \<and> map_of (parse_whois_output ''Country: US\<newline>descr: Example\<newline>country: DE'' ''8.8.8.8'')
        ''country'' = Some (PStr ''DE'')
   \<and> map_of (parse_line [(''ip'', PStr ''8.8.8.8''), (''country'', PStr ''US'')] ''country: DE'')
        ''country'' = Some (PStr ''DE'')"
proof -
  have k: "''country'' \<in> {''organization'', ''country'', ''asn'', ''network'', ''registered''}"
    by simp
  have lv: "line_value ''country'' ''country: DE'' = Some ''DE''"
    by code_simp
  have last: "last_value ''country'' (splitlines ''Country: US\<newline>descr: Example\<newline>country: DE'')
       = Some ''DE''"
    by code_simp
  note t = parse_whois_output_last_line_wins
             [OF k, of "''Country: US\<newline>descr: Example\<newline>country: DE''" "''8.8.8.8''"]
  from t last have a: "map_of (parse_whois_output ''Country: US\<newline>descr: Example\<newline>country: DE'' ''8.8.8.8'')
        ''country'' = Some (PStr ''DE'')"
    by simp
  from t lv have b: "map_of (parse_line [(''ip'', PStr ''8.8.8.8''), (''country'', PStr ''US'')] ''country: DE'')
        ''country'' = Some (PStr ''DE'')"
    by blast
  from k lv last a b show ?thesis by blast
qed

text \<open>
  The claim as stated, that the first line with a value decides and a later one never
  overwrites, fails on two organization lines: both have a value for the field, and the
  record holds that of the second.
\<close>

theorem parse_whois_output_later_line_overwrites:
  "splitlines ''Organization: First Org\<newline>Organization: Second Org''
     = [''Organization: First Org'', ''Organization: Second Org'']
   \<and> line_value ''organization'' ''Organization: First Org'' = Some ''First Org''
   \<and> line_value ''organization'' ''Organization: Second Org'' = Some ''Second Org''
   \<and> first_value ''organization''
        (splitlines ''Organization: First Org\<newline>Organization: Second Org'') = Some ''First Org''
   \<and> parse_whois_output ''Organization: First Org\<newline>Organization: Second Org'' ''8.8.8.8''
       = [(''ip'', PStr ''8.8.8.8''), (''organization'', PStr ''Second Org'')]
   \<and> map_of (parse_whois_output ''Organization: First Org\<newline>Organization: Second Org''
               ''8.8.8.8'') ''organization''
       \<noteq> map_option PStr
            (first_value ''organization''
               (splitlines ''Organization: First Org\<newline>Organization: Second Org''))"
proof -
  have s: "splitlines ''Organization: First Org\<newline>Organization: Second Org''
     = [''Organization: First Org'', ''Organization: Second Org'']"
    by code_simp
  have l1: "line_value ''organization'' ''Organization: First Org'' = Some ''First Org''"
    by code_simp
  have l2: "line_value ''organization'' ''Organization: Second Org'' = Some ''Second Org''"
    by code_simp
  have f: "first_value ''organization''
        (splitlines ''Organization: First Org\<newline>Organization: Second Org'') = Some ''First Org''"
    by code_simp
  have p: "parse_whois_output ''Organization: First Org\<newline>Organization: Second Org'' ''8.8.8.8''
       = [(''ip'', PStr ''8.8.8.8''), (''organization'', PStr ''Second Org'')]"
    by code_simp
  from s l1 l2 f p show ?thesis by simp
qed

section \<open>The engine: what a lookup gives does not depend on the clock\<close>

lemma lookup_loop_unfold:
  "\<exists>self1 wa wb. name self1 = name self
     \<and> lookup_loop lib perform ip max_retries j (self, w) =
         (if j \<le> max_retries then
            (case attempt_result lib perform ip (name self) (nat j) of
               Inr result \<Rightarrow> (Inr (PDict result), (self1, wa))
             | Inl e \<Rightarrow>
                 if j + 1 \<le> max_retries
                 then lookup_loop lib perform ip max_retries (j + 1) (self1, wb)
                 else (Inl (Exc ValueError (''Lookup failed: '' @ exc_str e)), (self1, wa)))
          else (Inr PNone, (self, w)))"
proof -
  from apply_rate_limit_facts [of self w] obtain self1 w1 where rl:
    "apply_rate_limit (self, w) = (self1, w1)" "name self1 = name self"
    by blast
  let ?wa = "w1\<lparr>events := events w1 @ [Attempt (nat j)]\<rparr>"
  let ?wb = "?wa\<lparr>clock := clock ?wa + real_of_int ((j + 1) * 2),
                 events := events ?wa @ [Backoff ((j + 1) * 2)]\<rparr>"
  have "lookup_loop lib perform ip max_retries j (self, w) =
         (if j \<le> max_retries then
            (case attempt_result lib perform ip (name self) (nat j) of
               Inr result \<Rightarrow> (Inr (PDict result), (self1, ?wa))
             | Inl e \<Rightarrow>
                 if j + 1 \<le> max_retries
                 then lookup_loop lib perform ip max_retries (j + 1) (self1, ?wb)
                 else (Inl (Exc ValueError (''Lookup failed: '' @ exc_str e)), (self1, ?wa)))
          else (Inr PNone, (self, w)))"
    using rl by (subst lookup_loop.simps) (simp add: Let_def split: sum.splits)
  with rl(2) show ?thesis by blast
qed

lemma lookup_loop_fst:
  "name self = name self2 \<Longrightarrow>
   fst (lookup_loop lib perform ip max_retries j (self, w))
     = fst (lookup_loop lib perform ip max_retries j (self2, w2))"
proof (induction "nat (max_retries + 1 - j)" arbitrary: j self w self2 w2)
  case 0
  then have "\<not> j \<le> max_retries" by linarith
  then show ?case
    using lookup_loop_unfold [of self lib "perform" ip max_retries j w]
          lookup_loop_unfold [of self2 lib "perform" ip max_retries j w2]
    by auto
next
  case (Suc n)
  from lookup_loop_unfold [of self lib "perform" ip max_retries j w]
  obtain s1 wa wb where u1: "name s1 = name self"
    "lookup_loop lib perform ip max_retries j (self, w) =
         (if j \<le> max_retries then
            (case attempt_result lib perform ip (name self) (nat j) of
               Inr result \<Rightarrow> (Inr (PDict result), (s1, wa))
             | Inl e \<Rightarrow>
                 if j + 1 \<le> max_retries
                 then lookup_loop lib perform ip max_retries (j + 1) (s1, wb)
                 else (Inl (Exc ValueError (''Lookup failed: '' @ exc_str e)), (s1, wa)))
          else (Inr PNone, (self, w)))"
    by blast
  from lookup_loop_unfold [of self2 lib "perform" ip max_retries j w2]
  obtain s2 wc wd where u2: "name s2 = name self2"
    "lookup_loop lib perform ip max_retries j (self2, w2) =
         (if j \<le> max_retries then
            (case attempt_result lib perform ip (name self2) (nat j) of
               Inr result \<Rightarrow> (Inr (PDict result), (s2, wc))
             | Inl e \<Rightarrow>
                 if j + 1 \<le> max_retries
                 then lookup_loop lib perform ip max_retries (j + 1) (s2, wd)
                 else (Inl (Exc ValueError (''Lookup failed: '' @ exc_str e)), (s2, wc)))
          else (Inr PNone, (self2, w2)))"
    by blast
  have n: "name s1 = name s2" using u1(1) u2(1) Suc.prems by simp
  have m: "n = nat (max_retries + 1 - (j + 1))" using Suc.hyps(2) by linarith
  from Suc.hyps(1) [OF m n, of wb wd]
  have ih: "fst (lookup_loop lib perform ip max_retries (j + 1) (s1, wb))
            = fst (lookup_loop lib perform ip max_retries (j + 1) (s2, wd))" .
  show ?case
    using u1(2) u2(2) ih Suc.prems by (simp split: sum.splits)
qed

lemma lookup_loop_Inl:
  "fst (lookup_loop lib perform ip max_retries j (self, w)) = Inl e \<Longrightarrow> exc_cls e = ValueError"
proof (induction "nat (max_retries + 1 - j)" arbitrary: j self w)
  case 0
  then have "\<not> j \<le> max_retries" by linarith
  then show ?case
    using lookup_loop_unfold [of self lib "perform" ip max_retries j w] "0.prems" by auto
next
  case (Suc n)
  from lookup_loop_unfold [of self lib "perform" ip max_retries j w]
  obtain s1 wa wb where u1: "name s1 = name self"
    "lookup_loop lib perform ip max_retries j (self, w) =
         (if j \<le> max_retries then
            (case attempt_result lib perform ip (name self) (nat j) of
               Inr result \<Rightarrow> (Inr (PDict result), (s1, wa))
             | Inl e \<Rightarrow>
                 if j + 1 \<le> max_retries
                 then lookup_loop lib perform ip max_retries (j + 1) (s1, wb)
                 else (Inl (Exc ValueError (''Lookup failed: '' @ exc_str e)), (s1, wa)))
          else (Inr PNone, (self, w)))"
    by blast
  have m: "n = nat (max_retries + 1 - (j + 1))" using Suc.hyps(2) by linarith
  note ih = Suc.hyps(1) [OF m, of s1 wb]
  show ?case
    using u1(2) ih Suc.prems by (auto split: sum.splits if_splits)
qed

lemma lookup_loop_Inr:
  "j \<le> max_retries \<Longrightarrow>
   fst (lookup_loop lib perform ip max_retries j (self, w)) = Inr v \<Longrightarrow>
   \<exists>k result. v = PDict result \<and> attempt_result lib perform ip (name self) k = Inr result"
proof (induction "nat (max_retries + 1 - j)" arbitrary: j self w)
  case 0
  then show ?case by linarith
next
  case (Suc n)
  from lookup_loop_unfold [of self lib "perform" ip max_retries j w]
  obtain s1 wa wb where u1: "name s1 = name self"
    "lookup_loop lib perform ip max_retries j (self, w) =
         (if j \<le> max_retries then
            (case attempt_result lib perform ip (name self) (nat j) of
               Inr result \<Rightarrow> (Inr (PDict result), (s1, wa))
             | Inl e \<Rightarrow>
                 if j + 1 \<le> max_retries
                 then lookup_loop lib perform ip max_retries (j + 1) (s1, wb)
                 else (Inl (Exc ValueError (''Lookup failed: '' @ exc_str e)), (s1, wa)))
          else (Inr PNone, (self, w)))"
    by blast
  have m: "n = nat (max_retries + 1 - (j + 1))" using Suc.hyps(2) by linarith
  show ?case
  proof (cases "attempt_result lib perform ip (name self) (nat j)")
    case (Inr result)
    with u1(2) Suc.prems show ?thesis by auto
  next
    case (Inl e)
    show ?thesis
    proof (cases "j + 1 \<le> max_retries")
      case True
      with u1(2) Inl Suc.prems
      have "fst (lookup_loop lib perform ip max_retries (j + 1) (s1, wb)) = Inr v" by simp
      from Suc.hyps(1) [OF m True this] u1(1) show ?thesis by simp
    next
      case False
      with u1(2) Inl Suc.prems show ?thesis by simp
    qed
  qed
qed

lemma lookup_fst:
  "name self = name self2 \<Longrightarrow>
   fst (lookup lib perform ip max_retries (self, w))
     = fst (lookup lib perform ip max_retries (self2, w2))"
  using lookup_loop_fst [of self self2 lib "perform" ip max_retries 0 w w2]
  by (simp add: lookup_def split: sum.splits)

lemma lookup_Inl:
  "fst (lookup lib perform ip max_retries (self, w)) = Inl e \<Longrightarrow> exc_cls e = ValueError"
  using lookup_loop_Inl [of lib "perform" ip max_retries 0 self w e]
  by (auto simp: lookup_def validate_ip_def split: sum.splits if_splits)

lemma attempt_result_well_formed:
  "attempt_result lib perform ip nm k = Inr result \<Longrightarrow> wf_dict result \<and> has_source result"
  by (auto simp: attempt_result_def split: sum.splits dest: normalize_well_formed)

lemma lookup_Inr:
  assumes "0 \<le> max_retries"
    and "fst (lookup lib perform ip max_retries (self, w)) = Inr v"
  shows "\<exists>result. v = PDict result \<and> wf_dict result \<and> has_source result"
proof -
  from assms(2) have "fst (lookup_loop lib perform ip max_retries 0 (self, w)) = Inr v"
    by (simp add: lookup_def split: sum.splits)
  from lookup_loop_Inr [OF assms(1) this] attempt_result_well_formed show ?thesis by blast
qed

lemma resolver_outcome_eq:
  "fst (lookup lib (perform (name r) ip) ip max_retries (r, w))
     = resolver_outcome lib perform max_retries ip (name r)"
  unfolding resolver_outcome_def
  by (rule lookup_fst) (simp add: new_resolver_def)

lemma successes_simps [simp]:
  "successes [] = []"
  "successes (Inr r # xs) = r # successes xs"
  "successes (Inl e # xs) = successes xs"
  by (simp_all add: successes_def map_filter_simps)

lemma failures_simps [simp]:
  "failures [] = []"
  "failures (Inr r # xs) = failures xs"
  "failures (Inl e # xs) = exc_str e # failures xs"
  by (simp_all add: failures_def map_filter_simps)


lemma lookup_cases:
  obtains (ok) result r' w' where
      "lookup lib (perform (name r) ip) ip max_retries (r, w) = (Inr result, (r', w'))"
      "resolver_outcome lib perform max_retries ip (name r) = Inr result"
  | (failed) e r' w' where
      "lookup lib (perform (name r) ip) ip max_retries (r, w) = (Inl e, (r', w'))"
      "resolver_outcome lib perform max_retries ip (name r) = Inl e"
      "exc_cls e = ValueError"
proof -
  obtain x r' w' where l: "lookup lib (perform (name r) ip) ip max_retries (r, w) = (x, (r', w'))"
    by (metis surj_pair)
  with resolver_outcome_eq [of lib "perform" r ip max_retries w]
  have x: "resolver_outcome lib perform max_retries ip (name r) = x" by simp
  show thesis
  proof (cases x)
    case (Inr result)
    with l x ok show ?thesis by simp
  next
    case (Inl e)
    with l lookup_Inl [of lib "perform (name r) ip" ip max_retries r w e]
    have "exc_cls e = ValueError" by simp
    with Inl l x failed show ?thesis by simp
  qed
qed

lemma resolver_loop_auto:
  assumes auto: "lookup_method self = ''auto''"
  shows "\<exists>st'. resolver_loop lib perform self ip rs (results, errors, st)
            = (Inr (results @ successes (map (resolver_outcome lib perform
                                                (engine_max_retries self) ip) (map name rs)),
                    errors @ failures (map (resolver_outcome lib perform
                                              (engine_max_retries self) ip) (map name rs))),
               st')
          \<and> logged st' = logged st @ trying ip (map name rs) \<and> disk st' = disk st"
proof (induction rs arbitrary: results errors st)
  case Nil
  show ?case by (simp add: trying_def)
next
  case (Cons r rs)
  let ?st0 = "st\<lparr>logged := logged st @ [LogInfo (''Trying '' @ name r @ '' for '' @ ip)]\<rparr>"
  show ?case
  proof (cases rule: lookup_cases [of lib "perform" r ip "engine_max_retries self" "outside ?st0"])
    case (ok result r' w')
    from Cons.IH [of "results @ [result]" errors "?st0\<lparr>outside := w'\<rparr>"]
    obtain st' where ih:
      "resolver_loop lib perform self ip rs (results @ [result], errors, ?st0\<lparr>outside := w'\<rparr>)
         = (Inr ((results @ [result]) @ successes (map (resolver_outcome lib perform
                                                (engine_max_retries self) ip) (map name rs)),
                 errors @ failures (map (resolver_outcome lib perform
                                              (engine_max_retries self) ip) (map name rs))),
            st')"
      "logged st' = logged (?st0\<lparr>outside := w'\<rparr>) @ trying ip (map name rs)"
      "disk st' = disk (?st0\<lparr>outside := w'\<rparr>)"
      by blast
    have "resolver_loop lib perform self ip (r # rs) (results, errors, st)
          = resolver_loop lib perform self ip rs
              (results @ [result], errors, ?st0\<lparr>outside := w'\<rparr>)"
      using ok(1) auto by (simp add: Let_def)
    with ih ok(2) show ?thesis by (simp add: trying_def)
  next
    case (failed e r' w')
    from Cons.IH [of results "errors @ [exc_str e]" "?st0\<lparr>outside := w'\<rparr>"]
    obtain st' where ih:
      "resolver_loop lib perform self ip rs (results, errors @ [exc_str e], ?st0\<lparr>outside := w'\<rparr>)
         = (Inr (results @ successes (map (resolver_outcome lib perform
                                                (engine_max_retries self) ip) (map name rs)),
                 (errors @ [exc_str e]) @ failures (map (resolver_outcome lib perform
                                              (engine_max_retries self) ip) (map name rs))),
            st')"
      "logged st' = logged (?st0\<lparr>outside := w'\<rparr>) @ trying ip (map name rs)"
      "disk st' = disk (?st0\<lparr>outside := w'\<rparr>)"
      by blast
    have "resolver_loop lib perform self ip (r # rs) (results, errors, st)
          = resolver_loop lib perform self ip rs
              (results, errors @ [exc_str e], ?st0\<lparr>outside := w'\<rparr>)"
      using failed(1,3) auto by (simp add: Let_def)
    with ih failed(2) show ?thesis by (simp add: trying_def)
  qed
qed

lemma resolver_loop_single:
  assumes single: "lookup_method self \<noteq> ''auto''"
  shows "fst (resolver_loop lib perform self ip [r] ([], [], st))
           = (case resolver_outcome lib perform (engine_max_retries self) ip (name r) of
                Inr result \<Rightarrow> Inr ([result], [])
              | Inl e \<Rightarrow> Inl (Exc ValueError
                                (''Lookup with '' @ name r @ '' failed: '' @ exc_str e)))"
proof (cases rule: lookup_cases [of lib "perform" r ip "engine_max_retries self"
    "outside (st\<lparr>logged := logged st @ [LogInfo (''Trying '' @ name r @ '' for '' @ ip)]\<rparr>)"])
  case (ok result r' w')
  then show ?thesis using single by (simp add: Let_def)
next
  case (failed e r' w')
  then show ?thesis using single by (simp add: Let_def)
qed



lemma cache_store_fst: "fst (cache_store env self ip v st) = Inr ()"
  by (simp add: cache_store_def CacheManager_set_def split: option.splits prod.splits sum.splits)

lemma cache_store_logged: "logged (snd (cache_store env self ip v st)) = logged st"
  by (simp add: cache_store_def split: option.splits prod.splits sum.splits)

lemma cache_store_cases:
  obtains st2 where "cache_store env self ip v st = (Inr (), st2)" "logged st2 = logged st"
proof -
  obtain x st2 where c: "cache_store env self ip v st = (x, st2)" by (metis surj_pair)
  with cache_store_fst [of env self ip v st] cache_store_logged [of env self ip v st]
  have "x = Inr ()" "logged st2 = logged st" by simp_all
  with c that show thesis by simp
qed

lemma auto_resolver_names:
  "map name [new_resolver ''IPWhoisResolver'' rl, new_resolver ''PythonWhoisResolver'' rl,
             new_resolver ''SystemWhoisResolver'' rl] = auto_resolvers"
  by (simp add: new_resolver_def auto_resolvers_def)

lemma lookup_ip_miss_auto:
  assumes auto: "lookup_method self = ''auto''"
  shows "\<exists>st'. lookup_ip_miss lib perform env self ip st
           = (if successes (map (resolver_outcome lib perform (engine_max_retries self) ip)
                              auto_resolvers) = []
              then Inl (Exc ValueError (''All lookup methods failed for '' @ ip))
              else if length (successes (map (resolver_outcome lib perform
                                                (engine_max_retries self) ip) auto_resolvers)) > 1
              then merge_results (successes (map (resolver_outcome lib perform
                                                    (engine_max_retries self) ip) auto_resolvers))
              else Inr (hd (successes (map (resolver_outcome lib perform
                                              (engine_max_retries self) ip) auto_resolvers))),
              st')
         \<and> logged st'
             = logged st @ trying ip auto_resolvers
               @ (if successes (map (resolver_outcome lib perform (engine_max_retries self) ip)
                                  auto_resolvers) = []
                  then [LogError (''No joy for '' @ ip @ '' - all methods failed: ''
                                  @ join_strs ''; ''
                                      (failures (map (resolver_outcome lib perform
                                                        (engine_max_retries self) ip)
                                                   auto_resolvers)))]
                  else [])"
proof -
  define rs where "rs = [new_resolver ''IPWhoisResolver'' (engine_rate_limit self),
                         new_resolver ''PythonWhoisResolver'' (engine_rate_limit self),
                         new_resolver ''SystemWhoisResolver'' (engine_rate_limit self)]"
  define outs where "outs = map (resolver_outcome lib perform (engine_max_retries self) ip)
                              auto_resolvers"
  have g: "get_resolver_by_method (lookup_method self) (engine_rate_limit self) = Inr rs"
    using auto by (simp add: get_resolver_by_method_def rs_def)
  have nm: "map name rs = auto_resolvers"
    unfolding rs_def by (rule auto_resolver_names)
  from resolver_loop_auto [OF auto, of lib "perform" ip rs "[]" "[]" st] nm
  obtain st1 where l: "resolver_loop lib perform self ip rs ([], [], st)
                         = (Inr (successes outs, failures outs), st1)"
    and lg: "logged st1 = logged st @ trying ip auto_resolvers"
    by (auto simp: outs_def)
  show ?thesis
  proof (cases "successes outs = []")
    case True
    with g l lg show ?thesis
      unfolding outs_def [symmetric] by (simp add: lookup_ip_miss_def)
  next
    case False
    show ?thesis
    proof (cases "if length (successes outs) > 1 then merge_results (successes outs)
                  else Inr (hd (successes outs))")
      case (Inl e)
      with g l lg False show ?thesis
        unfolding outs_def [symmetric] by (simp add: lookup_ip_miss_def)
    next
      case (Inr final_result)
      obtain st2 where c: "cache_store env self ip final_result st1 = (Inr (), st2)"
        "logged st2 = logged st1"
        by (rule cache_store_cases)
      with g l lg False Inr show ?thesis
        unfolding outs_def [symmetric] by (simp add: lookup_ip_miss_def)
    qed
  qed
qed

lemma lookup_ip_miss_single:
  assumes m: "(lookup_method self, nm) \<in> set single_methods"
  shows "fst (lookup_ip_miss lib perform env self ip st)
           = (case resolver_outcome lib perform (engine_max_retries self) ip nm of
                Inr result \<Rightarrow> Inr result
              | Inl e \<Rightarrow> Inl (Exc ValueError
                                (''Lookup with '' @ nm @ '' failed: '' @ exc_str e)))"
proof -
  define rs where "rs = [new_resolver nm (engine_rate_limit self)]"
  from m have na: "lookup_method self \<noteq> ''auto''" by (auto simp: single_methods_def)
  from m have g: "get_resolver_by_method (lookup_method self) (engine_rate_limit self) = Inr rs"
    by (auto simp: single_methods_def get_resolver_by_method_def rs_def)
  have n: "name (new_resolver nm (engine_rate_limit self)) = nm"
    by (simp add: new_resolver_def)
  obtain x st1 where l: "resolver_loop lib perform self ip rs ([], [], st) = (x, st1)"
    by (metis surj_pair)
  then have fx: "fst (resolver_loop lib perform self ip rs ([], [], st)) = x"
    by (simp only: fst_conv)
  note single = resolver_loop_single [OF na, of lib "perform" ip
                                        "new_resolver nm (engine_rate_limit self)" st]
  from single [folded rs_def, unfolded fx n]
  have x: "x = (case resolver_outcome lib perform (engine_max_retries self) ip nm of
                  Inr result \<Rightarrow> Inr ([result], [])
                | Inl e \<Rightarrow> Inl (Exc ValueError
                                  (''Lookup with '' @ nm @ '' failed: '' @ exc_str e)))" .
  show ?thesis
  proof (cases "resolver_outcome lib perform (engine_max_retries self) ip nm")
    case (Inl e)
    with g l x show ?thesis by (simp add: lookup_ip_miss_def)
  next
    case (Inr result)
    obtain st2 where c: "cache_store env self ip result st1 = (Inr (), st2)"
      by (rule cache_store_cases)
    with g l x Inr show ?thesis by (simp add: lookup_ip_miss_def)
  qed
qed



lemma lookup_ip_no_cache:
  assumes "cached_record env self ip st = None"
  shows "lookup_ip lib perform env self ip st = lookup_ip_miss lib perform env self ip st"
proof (cases "use_cache self \<and> cache self \<noteq> None")
  case False
  show ?thesis by (simp only: lookup_ip_def if_not_P [OF False])
next
  case True
  then obtain c where c: "cache self = Some c" by auto
  from CacheManager_get_never_raises [of env "disk st" "clock (outside st)" c ip "lookup_method self"]
  obtain v where v: "CacheManager_get env (disk st) (clock (outside st)) c ip (lookup_method self)
                       = Inr v" by blast
  with assms True c have "\<not> truthy v"
    by (auto simp: cached_record_def split: if_splits)
  with True c v show ?thesis by (simp add: lookup_ip_def)
qed



lemma successes_dicts:
  assumes "\<forall>v \<in> set vs. \<exists>d. v = PDict d \<and> wf_dict d \<and> has_source d"
  shows "\<exists>ds. vs = map PDict ds \<and> list_all (\<lambda>d. wf_dict d \<and> has_source d) ds"
  using assms
proof (induction vs)
  case Nil
  show ?case by simp
next
  case (Cons v vs)
  then obtain d where d: "v = PDict d" "wf_dict d" "has_source d" by auto
  from Cons obtain ds where ds: "vs = map PDict ds"
    "list_all (\<lambda>d. wf_dict d \<and> has_source d) ds" by auto
  from d ds have "v # vs = map PDict (d # ds) \<and> list_all (\<lambda>d. wf_dict d \<and> has_source d) (d # ds)"
    by simp
  then show ?case by (rule exI [of _ "d # ds"])
qed

lemma set_successes: "v \<in> set (successes xs) \<longleftrightarrow> Inr v \<in> set xs"
proof (induction xs)
  case Nil
  show ?case by simp
next
  case (Cons x xs)
  then show ?case by (cases x) auto
qed

lemma those_dicts: "those (map (dict_of \<circ> PDict) ds) = Some ds"
  by (induction ds) simp_all

lemma merge_results_dicts:
  "merge_results (map PDict ds)
     = (case merge_whois_results ds of Inl e \<Rightarrow> Inl e | Inr merged \<Rightarrow> Inr (PDict merged))"
  by (simp add: merge_results_def those_dicts)

lemma resolver_outcome_Inr:
  assumes "0 \<le> max_retries" "resolver_outcome lib perform max_retries ip nm = Inr v"
  shows "\<exists>d. v = PDict d \<and> wf_dict d \<and> has_source d"
  using lookup_Inr [OF assms(1), of lib "perform nm ip" ip "new_resolver nm 0"
                      "\<lparr>clock = 0, events = []\<rparr>" v] assms(2)
  by (simp add: resolver_outcome_def)

lemma resolver_outcome_success:
  assumes v: "is_valid_ip ip" and k: "int k \<le> max_retries"
    and f: "all_fail lib (perform nm ip) ip nm k"
    and s: "attempt_result lib (perform nm ip) ip nm k = Inr result"
  shows "resolver_outcome lib perform max_retries ip nm = Inr (PDict result)"
proof -
  have n: "name (new_resolver nm 0) = nm" by (simp add: new_resolver_def)
  from f n have f': "all_fail lib (perform nm ip) ip (name (new_resolver nm 0)) k" by simp
  from s n have s': "attempt_result lib (perform nm ip) ip (name (new_resolver nm 0)) k
                       = Inr result" by simp
  from lookup_success [OF v k f' s', of "\<lparr>clock = 0, events = []\<rparr>"]
  show ?thesis by (auto simp: resolver_outcome_def)
qed

lemma resolver_outcome_exhausted:
  assumes v: "is_valid_ip ip" and m: "0 \<le> max_retries"
    and f: "all_fail lib (perform nm ip) ip nm (nat max_retries)"
    and l: "attempt_result lib (perform nm ip) ip nm (nat max_retries) = Inl e"
  shows "resolver_outcome lib perform max_retries ip nm
           = Inl (Exc ValueError (''Lookup failed: '' @ exc_str e))"
proof -
  have n: "name (new_resolver nm 0) = nm" by (simp add: new_resolver_def)
  from f n have f': "all_fail lib (perform nm ip) ip (name (new_resolver nm 0)) (nat max_retries)"
    by simp
  from l n have l': "attempt_result lib (perform nm ip) ip (name (new_resolver nm 0))
                       (nat max_retries) = Inl e" by simp
  from lookup_exhausted [OF v m f' l', of "\<lparr>clock = 0, events = []\<rparr>"]
  show ?thesis by (auto simp: resolver_outcome_def)
qed

lemma length_successes_failures:
  "length (successes xs) + length (failures xs) = length xs"
proof (induction xs)
  case Nil
  show ?case by simp
next
  case (Cons x xs)
  then show ?case by (cases x) simp_all
qed

lemma auto_successes_dicts:
  assumes "0 \<le> engine_max_retries self"
  shows "\<exists>ds. successes (auto_outcomes lib perform self ip) = map PDict ds
            \<and> list_all (\<lambda>d. wf_dict d \<and> has_source d) ds"
proof (rule successes_dicts, rule ballI)
  fix v assume "v \<in> set (successes (auto_outcomes lib perform self ip))"
  then have "Inr v \<in> set (auto_outcomes lib perform self ip)" by (simp add: set_successes)
  then obtain nm where "resolver_outcome lib perform (engine_max_retries self) ip nm = Inr v"
    by (auto simp: auto_outcomes_def)
  from resolver_outcome_Inr [OF assms this]
  show "\<exists>d. v = PDict d \<and> wf_dict d \<and> has_source d" .
qed

text \<open>
  Claim C3. In the method \<^verbatim>\<open>auto\<close>, where the cache gives no record, the engine tries
  the three resolvers in the order IPWhoisResolver, PythonWhoisResolver,
  SystemWhoisResolver: it logs one line for each, in this order, whatever the earlier
  ones gave, so it goes on after a success as after a failure. What it returns is decided
  by the records of all the resolvers that succeeded, in this order: their merge where
  there is more than one, the record itself where there is one, and the error where there
  is none. For a number of retries that is not negative the successful results are
  well-formed records, each with its source, and the merge is that of
  \<^verbatim>\<open>merge_whois_results\<close> on them.
\<close>

theorem lookup_ip_auto_accumulates:
  assumes "lookup_method self = ''auto''"
    and "cached_record env self ip st = None"
  shows "logged (snd (lookup_ip lib perform env self ip st))
           = logged st @ trying ip auto_resolvers
             @ (if successes (auto_outcomes lib perform self ip) = []
                then [LogError (''No joy for '' @ ip @ '' - all methods failed: ''
                                @ join_strs ''; '' (failures (auto_outcomes lib perform self ip)))]
                else [])
       \<and> (successes (auto_outcomes lib perform self ip) = []
            \<longrightarrow> fst (lookup_ip lib perform env self ip st)
                  = Inl (Exc ValueError (''All lookup methods failed for '' @ ip)))
       \<and> (\<forall>r. successes (auto_outcomes lib perform self ip) = [r]
            \<longrightarrow> fst (lookup_ip lib perform env self ip st) = Inr r)
       \<and> (length (successes (auto_outcomes lib perform self ip)) > 1
            \<longrightarrow> fst (lookup_ip lib perform env self ip st)
                  = merge_results (successes (auto_outcomes lib perform self ip)))
       \<and> (0 \<le> engine_max_retries self
            \<longrightarrow> (\<exists>ds. successes (auto_outcomes lib perform self ip) = map PDict ds
                    \<and> list_all (\<lambda>d. wf_dict d \<and> has_source d) ds
                    \<and> merge_results (successes (auto_outcomes lib perform self ip))
                        = (case merge_whois_results ds of
                             Inl e \<Rightarrow> Inl e
                           | Inr merged \<Rightarrow> Inr (PDict merged))))"
proof -
  from lookup_ip_miss_auto [OF assms(1), of lib "perform" env ip st]
  obtain st' where m:
    "lookup_ip_miss lib perform env self ip st
       = (if successes (auto_outcomes lib perform self ip) = []
          then Inl (Exc ValueError (''All lookup methods failed for '' @ ip))
          else if length (successes (auto_outcomes lib perform self ip)) > 1
          then merge_results (successes (auto_outcomes lib perform self ip))
          else Inr (hd (successes (auto_outcomes lib perform self ip))),
          st')"
    and lg: "logged st'
       = logged st @ trying ip auto_resolvers
         @ (if successes (auto_outcomes lib perform self ip) = []
            then [LogError (''No joy for '' @ ip @ '' - all methods failed: ''
                            @ join_strs ''; '' (failures (auto_outcomes lib perform self ip)))]
            else [])"
    unfolding auto_outcomes_def by blast
  note eq = lookup_ip_no_cache [OF assms(2), of lib "perform"]
  have a: "logged (snd (lookup_ip lib perform env self ip st))
           = logged st @ trying ip auto_resolvers
             @ (if successes (auto_outcomes lib perform self ip) = []
                then [LogError (''No joy for '' @ ip @ '' - all methods failed: ''
                                @ join_strs ''; '' (failures (auto_outcomes lib perform self ip)))]
                else [])"
    using eq m lg by simp
  have b: "successes (auto_outcomes lib perform self ip) = []
            \<longrightarrow> fst (lookup_ip lib perform env self ip st)
                  = Inl (Exc ValueError (''All lookup methods failed for '' @ ip))"
    using eq m by simp
  have c: "\<forall>r. successes (auto_outcomes lib perform self ip) = [r]
            \<longrightarrow> fst (lookup_ip lib perform env self ip st) = Inr r"
    using eq m by simp
  have d: "length (successes (auto_outcomes lib perform self ip)) > 1
            \<longrightarrow> fst (lookup_ip lib perform env self ip st)
                  = merge_results (successes (auto_outcomes lib perform self ip))"
    using eq m by auto
  have e: "0 \<le> engine_max_retries self
            \<longrightarrow> (\<exists>ds. successes (auto_outcomes lib perform self ip) = map PDict ds
                    \<and> list_all (\<lambda>d. wf_dict d \<and> has_source d) ds
                    \<and> merge_results (successes (auto_outcomes lib perform self ip))
                        = (case merge_whois_results ds of
                             Inl e \<Rightarrow> Inl e
                           | Inr merged \<Rightarrow> Inr (PDict merged)))"
  proof
    assume "0 \<le> engine_max_retries self"
    from auto_successes_dicts [OF this, of lib "perform" ip]
    obtain ds where ds: "successes (auto_outcomes lib perform self ip) = map PDict ds"
      "list_all (\<lambda>d. wf_dict d \<and> has_source d) ds" by blast
    from ds merge_results_dicts [of ds]
    show "\<exists>ds. successes (auto_outcomes lib perform self ip) = map PDict ds
                    \<and> list_all (\<lambda>d. wf_dict d \<and> has_source d) ds
                    \<and> merge_results (successes (auto_outcomes lib perform self ip))
                        = (case merge_whois_results ds of
                             Inl e \<Rightarrow> Inl e
                           | Inr merged \<Rightarrow> Inr (PDict merged))"
      by auto
  qed
  from a b c d e show ?thesis by blast
qed

theorem lookup_ip_auto_accumulates_witness:
  "lookup_method \<lparr>lookup_method = ''auto'', use_cache = False, engine_rate_limit = 1,
                    engine_max_retries = 2, cache = None\<rparr> = ''auto''
   \<and> cached_record all_allowed
        \<lparr>lookup_method = ''auto'', use_cache = False, engine_rate_limit = 1,
           engine_max_retries = 2, cache = None\<rparr> ''8.8.8.8'' empty_state = None
   \<and> auto_outcomes example_lib
        (\<lambda>nm ip k. if nm = ''IPWhoisResolver'' then Inl (Exc OSError ''timed out'')
                    else if nm = ''PythonWhoisResolver'' then Inr [(''asn'', PStr ''AS15169'')]
                    else Inr [(''country'', PStr ''US'')])
        \<lparr>lookup_method = ''auto'', use_cache = False, engine_rate_limit = 1,
           engine_max_retries = 2, cache = None\<rparr> ''8.8.8.8''
       = [Inl (Exc ValueError ''Lookup failed: timed out''),
          Inr (PDict [(''ip'', PStr ''8.8.8.8''), (''network'', PNone),
                      (''asn'', PStr ''15169''), (''organization'', PNone),
                      (''country'', PNone), (''city'', PNone), (''registered'', PNone),
                      (''source'', PStr ''PythonWhoisResolver''),
                      (''raw'', PDict [(''asn'', PStr ''AS15169''),
                                       (''ip'', PStr ''8.8.8.8'')])]),
          Inr (PDict [(''ip'', PStr ''8.8.8.8''), (''network'', PNone),
                      (''asn'', PNone), (''organization'', PNone),
                      (''country'', PStr ''US''), (''city'', PNone), (''registered'', PNone),
                      (''source'', PStr ''SystemWhoisResolver''),
                      (''raw'', PDict [(''country'', PStr ''US''),
                                       (''ip'', PStr ''8.8.8.8'')])])]
   \<and> fst (lookup_ip example_lib
        (\<lambda>nm ip k. if nm = ''IPWhoisResolver'' then Inl (Exc OSError ''timed out'')
                    else if nm = ''PythonWhoisResolver'' then Inr [(''asn'', PStr ''AS15169'')]
                    else Inr [(''country'', PStr ''US'')])
        all_allowed
        \<lparr>lookup_method = ''auto'', use_cache = False, engine_rate_limit = 1,
           engine_max_retries = 2, cache = None\<rparr> ''8.8.8.8'' empty_state)
       = Inr (PDict [(''ip'', PStr ''8.8.8.8''), (''network'', PNone),
                     (''asn'', PStr ''15169''), (''organization'', PNone),
                     (''country'', PStr ''US''), (''city'', PNone), (''registered'', PNone),
                     (''source'', PStr ''PythonWhoisResolver, SystemWhoisResolver''),
                     (''raw'', PDict [(''asn'', PStr ''AS15169''),
                                      (''ip'', PStr ''8.8.8.8'')])])
   \<and> logged (snd (lookup_ip example_lib
        (\<lambda>nm ip k. if nm = ''IPWhoisResolver'' then Inl (Exc OSError ''timed out'')
                    else if nm = ''PythonWhoisResolver'' then Inr [(''asn'', PStr ''AS15169'')]
                    else Inr [(''country'', PStr ''US'')])
        all_allowed
        \<lparr>lookup_method = ''auto'', use_cache = False, engine_rate_limit = 1,
           engine_max_retries = 2, cache = None\<rparr> ''8.8.8.8'' empty_state))
       = [LogInfo ''Trying IPWhoisResolver for 8.8.8.8'',
          LogInfo ''Trying PythonWhoisResolver for 8.8.8.8'',
          LogInfo ''Trying SystemWhoisResolver for 8.8.8.8'']"
proof -
  let ?pf = "(\<lambda>nm ip k. if nm = ''IPWhoisResolver'' then Inl (Exc OSError ''timed out'')
                    else if nm = ''PythonWhoisResolver'' then Inr [(''asn'', PStr ''AS15169'')]
                    else Inr [(''country'', PStr ''US'')])
             :: string \<Rightarrow> string \<Rightarrow> nat \<Rightarrow> pyexc + pydict"
  let ?self = "\<lparr>lookup_method = ''auto'', use_cache = False, engine_rate_limit = 1,
                 engine_max_retries = 2, cache = None\<rparr>"
  let ?p = "[(''ip'', PStr ''8.8.8.8''), (''network'', PNone),
             (''asn'', PStr ''15169''), (''organization'', PNone),
             (''country'', PNone), (''city'', PNone), (''registered'', PNone),
             (''source'', PStr ''PythonWhoisResolver''),
             (''raw'', PDict [(''asn'', PStr ''AS15169''), (''ip'', PStr ''8.8.8.8'')])]"
  let ?s = "[(''ip'', PStr ''8.8.8.8''), (''network'', PNone),
             (''asn'', PNone), (''organization'', PNone),
             (''country'', PStr ''US''), (''city'', PNone), (''registered'', PNone),
             (''source'', PStr ''SystemWhoisResolver''),
             (''raw'', PDict [(''country'', PStr ''US''), (''ip'', PStr ''8.8.8.8'')])]"
  have v: "is_valid_ip ''8.8.8.8''" by code_simp
  have au: "lookup_method ?self = ''auto''" by simp
  have cr: "cached_record all_allowed ?self ''8.8.8.8'' empty_state = None"
    by (simp add: cached_record_def)
  have o1: "resolver_outcome example_lib ?pf 2 ''8.8.8.8'' ''IPWhoisResolver''
              = Inl (Exc ValueError ''Lookup failed: timed out'')"
    using resolver_outcome_exhausted
            [OF v, of 2 example_lib ?pf "''IPWhoisResolver''" "Exc OSError ''timed out''"]
    by (simp add: all_fail_iff attempt_result_def)
  have o2: "resolver_outcome example_lib ?pf 2 ''8.8.8.8'' ''PythonWhoisResolver'' = Inr (PDict ?p)"
    using resolver_outcome_success
            [OF v, of 0 2 example_lib ?pf "''PythonWhoisResolver''" ?p]
    by (simp add: all_fail_iff attempt_result_def normalize_whois_result_def
                  norm_organization_def norm_ip_def norm_network_def norm_asn_def
                  norm_country_def norm_city_def norm_registered_def py_in_def py_set_def
                  py_get_def py_get_default_def extract_asn_def py_str_def match_digits_def
                  is_digit_def)
  have o3: "resolver_outcome example_lib ?pf 2 ''8.8.8.8'' ''SystemWhoisResolver'' = Inr (PDict ?s)"
    using resolver_outcome_success
            [OF v, of 0 2 example_lib ?pf "''SystemWhoisResolver''" ?s]
    by (simp add: all_fail_iff attempt_result_def normalize_whois_result_def
                  norm_organization_def norm_ip_def norm_network_def norm_asn_def
                  norm_country_def norm_city_def norm_registered_def py_in_def py_set_def
                  py_get_def py_get_default_def extract_country_def strip_def is_space_def)
  have outs: "auto_outcomes example_lib ?pf ?self ''8.8.8.8''
                = [Inl (Exc ValueError ''Lookup failed: timed out''), Inr (PDict ?p), Inr (PDict ?s)]"
    by (simp add: auto_outcomes_def auto_resolvers_def o1 o2 o3)
  have su: "successes (auto_outcomes example_lib ?pf ?self ''8.8.8.8'') = [PDict ?p, PDict ?s]"
    by (simp only: outs successes_simps)
  have mr: "merge_results [PDict ?p, PDict ?s]
       = Inr (PDict [(''ip'', PStr ''8.8.8.8''), (''network'', PNone),
                     (''asn'', PStr ''15169''), (''organization'', PNone),
                     (''country'', PStr ''US''), (''city'', PNone), (''registered'', PNone),
                     (''source'', PStr ''PythonWhoisResolver, SystemWhoisResolver''),
                     (''raw'', PDict [(''asn'', PStr ''AS15169''),
                                      (''ip'', PStr ''8.8.8.8'')])])"
    by code_simp
  note t = lookup_ip_auto_accumulates [OF au cr, of example_lib ?pf]
  from t su have r: "fst (lookup_ip example_lib ?pf all_allowed ?self ''8.8.8.8'' empty_state)
                       = merge_results [PDict ?p, PDict ?s]"
    by simp
  from t su have lg: "logged (snd (lookup_ip example_lib ?pf all_allowed ?self ''8.8.8.8''
                                     empty_state))
       = [LogInfo ''Trying IPWhoisResolver for 8.8.8.8'',
          LogInfo ''Trying PythonWhoisResolver for 8.8.8.8'',
          LogInfo ''Trying SystemWhoisResolver for 8.8.8.8'']"
    by (simp add: trying_def auto_resolvers_def empty_state_def)
  from au cr outs r mr lg show ?thesis by simp
qed

text \<open>
  Claim C2, as the code has it. Where the cache gives no record and every resolver of
  the method fails: in the method \<^verbatim>\<open>auto\<close> the engine raises a ValueError whose message
  is \<^verbatim>\<open>All lookup methods failed for\<close> and the identity, and nothing else; the messages
  of the three failures, joined with \<^verbatim>\<open>; \<close>, go into the line that it logs as an error
  before it raises. In a method with one resolver the engine raises a ValueError whose
  message is \<^verbatim>\<open>Lookup with\<close>, the name of the resolver, \<^verbatim>\<open>failed:\<close> and the message of
  the failure.
\<close>

theorem lookup_ip_all_failed:
  assumes "cached_record env self ip st = None"
  shows "(lookup_method self = ''auto'' \<and> successes (auto_outcomes lib perform self ip) = []
            \<longrightarrow> fst (lookup_ip lib perform env self ip st)
                  = Inl (Exc ValueError (''All lookup methods failed for '' @ ip))
                \<and> logged (snd (lookup_ip lib perform env self ip st))
                  = logged st @ trying ip auto_resolvers
                    @ [LogError (''No joy for '' @ ip @ '' - all methods failed: ''
                                 @ join_strs ''; ''
                                     (failures (auto_outcomes lib perform self ip)))]
                \<and> length (failures (auto_outcomes lib perform self ip)) = 3)
       \<and> (\<forall>nm e. (lookup_method self, nm) \<in> set single_methods
                  \<and> resolver_outcome lib perform (engine_max_retries self) ip nm = Inl e
            \<longrightarrow> fst (lookup_ip lib perform env self ip st)
                  = Inl (Exc ValueError (''Lookup with '' @ nm @ '' failed: '' @ exc_str e)))"
proof -
  note eq = lookup_ip_no_cache [OF assms, of lib "perform"]
  have a: "lookup_method self = ''auto'' \<and> successes (auto_outcomes lib perform self ip) = []
            \<longrightarrow> fst (lookup_ip lib perform env self ip st)
                  = Inl (Exc ValueError (''All lookup methods failed for '' @ ip))
                \<and> logged (snd (lookup_ip lib perform env self ip st))
                  = logged st @ trying ip auto_resolvers
                    @ [LogError (''No joy for '' @ ip @ '' - all methods failed: ''
                                 @ join_strs ''; ''
                                     (failures (auto_outcomes lib perform self ip)))]
                \<and> length (failures (auto_outcomes lib perform self ip)) = 3"
  proof
    assume h: "lookup_method self = ''auto'' \<and> successes (auto_outcomes lib perform self ip) = []"
    from lookup_ip_miss_auto [of self lib "perform" env ip st] h
    obtain st' where m:
      "lookup_ip_miss lib perform env self ip st
         = (Inl (Exc ValueError (''All lookup methods failed for '' @ ip)), st')"
      "logged st' = logged st @ trying ip auto_resolvers
                    @ [LogError (''No joy for '' @ ip @ '' - all methods failed: ''
                                 @ join_strs ''; ''
                                     (failures (auto_outcomes lib perform self ip)))]"
      by (auto simp: auto_outcomes_def)
    from length_successes_failures [of "auto_outcomes lib perform self ip"] h
    have "length (failures (auto_outcomes lib perform self ip)) = 3"
      by (simp add: auto_outcomes_def auto_resolvers_def)
    with eq m
    show "fst (lookup_ip lib perform env self ip st)
                  = Inl (Exc ValueError (''All lookup methods failed for '' @ ip))
                \<and> logged (snd (lookup_ip lib perform env self ip st))
                  = logged st @ trying ip auto_resolvers
                    @ [LogError (''No joy for '' @ ip @ '' - all methods failed: ''
                                 @ join_strs ''; ''
                                     (failures (auto_outcomes lib perform self ip)))]
                \<and> length (failures (auto_outcomes lib perform self ip)) = 3"
      by simp
  qed
  have b: "\<forall>nm e. (lookup_method self, nm) \<in> set single_methods
                  \<and> resolver_outcome lib perform (engine_max_retries self) ip nm = Inl e
            \<longrightarrow> fst (lookup_ip lib perform env self ip st)
                  = Inl (Exc ValueError (''Lookup with '' @ nm @ '' failed: '' @ exc_str e))"
  proof (intro allI impI)
    fix nm e
    assume h: "(lookup_method self, nm) \<in> set single_methods
                  \<and> resolver_outcome lib perform (engine_max_retries self) ip nm = Inl e"
    from lookup_ip_miss_single [of self nm lib "perform" env ip st] h eq
    show "fst (lookup_ip lib perform env self ip st)
                  = Inl (Exc ValueError (''Lookup with '' @ nm @ '' failed: '' @ exc_str e))"
      by simp
  qed
  from a b show ?thesis by blast
qed

theorem lookup_ip_all_failed_witness:
  "cached_record all_allowed
        \<lparr>lookup_method = ''auto'', use_cache = False, engine_rate_limit = 1,
           engine_max_retries = 2, cache = None\<rparr> ''8.8.8.8'' empty_state = None
   \<and> lookup_method \<lparr>lookup_method = ''auto'', use_cache = False, engine_rate_limit = 1,
                      engine_max_retries = 2, cache = None\<rparr> = ''auto''
   \<and> successes (auto_outcomes example_lib (\<lambda>nm ip k. Inl (Exc OSError (''no route from '' @ nm)))
        \<lparr>lookup_method = ''auto'', use_cache = False, engine_rate_limit = 1,
           engine_max_retries = 2, cache = None\<rparr> ''8.8.8.8'') = []
   \<and> fst (lookup_ip example_lib (\<lambda>nm ip k. Inl (Exc OSError (''no route from '' @ nm)))
        all_allowed
        \<lparr>lookup_method = ''auto'', use_cache = False, engine_rate_limit = 1,
           engine_max_retries = 2, cache = None\<rparr> ''8.8.8.8'' empty_state)
       = Inl (Exc ValueError ''All lookup methods failed for 8.8.8.8'')
   \<and> logged (snd (lookup_ip example_lib (\<lambda>nm ip k. Inl (Exc OSError (''no route from '' @ nm)))
        all_allowed
        \<lparr>lookup_method = ''auto'', use_cache = False, engine_rate_limit = 1,
           engine_max_retries = 2, cache = None\<rparr> ''8.8.8.8'' empty_state))
       = [LogInfo ''Trying IPWhoisResolver for 8.8.8.8'',
          LogInfo ''Trying PythonWhoisResolver for 8.8.8.8'',
          LogInfo ''Trying SystemWhoisResolver for 8.8.8.8'',
          LogError ''No joy for 8.8.8.8 - all methods failed: Lookup failed: no route from IPWhoisResolver; Lookup failed: no route from PythonWhoisResolver; Lookup failed: no route from SystemWhoisResolver'']"
proof -
  let ?pf = "(\<lambda>nm ip k. Inl (Exc OSError (''no route from '' @ nm)))
             :: string \<Rightarrow> string \<Rightarrow> nat \<Rightarrow> pyexc + pydict"
  let ?self = "\<lparr>lookup_method = ''auto'', use_cache = False, engine_rate_limit = 1,
                 engine_max_retries = 2, cache = None\<rparr>"
  have v: "is_valid_ip ''8.8.8.8''" by code_simp
  have au: "lookup_method ?self = ''auto''" by simp
  have cr: "cached_record all_allowed ?self ''8.8.8.8'' empty_state = None"
    by (simp add: cached_record_def)
  have o: "resolver_outcome example_lib ?pf 2 ''8.8.8.8'' nm
              = Inl (Exc ValueError (''Lookup failed: no route from '' @ nm))" for nm
    using resolver_outcome_exhausted
            [OF v, of 2 example_lib ?pf nm "Exc OSError (''no route from '' @ nm)"]
    by (simp add: all_fail_iff attempt_result_def)
  have o1: "resolver_outcome example_lib ?pf (engine_max_retries ?self) ''8.8.8.8''
              ''IPWhoisResolver''
              = Inl (Exc ValueError ''Lookup failed: no route from IPWhoisResolver'')"
    using o [of "''IPWhoisResolver''"] by simp
  have o2: "resolver_outcome example_lib ?pf (engine_max_retries ?self) ''8.8.8.8''
              ''PythonWhoisResolver''
              = Inl (Exc ValueError ''Lookup failed: no route from PythonWhoisResolver'')"
    using o [of "''PythonWhoisResolver''"] by simp
  have o3: "resolver_outcome example_lib ?pf (engine_max_retries ?self) ''8.8.8.8''
              ''SystemWhoisResolver''
              = Inl (Exc ValueError ''Lookup failed: no route from SystemWhoisResolver'')"
    using o [of "''SystemWhoisResolver''"] by simp
  have outs: "auto_outcomes example_lib ?pf ?self ''8.8.8.8''
                = [Inl (Exc ValueError ''Lookup failed: no route from IPWhoisResolver''),
                   Inl (Exc ValueError ''Lookup failed: no route from PythonWhoisResolver''),
                   Inl (Exc ValueError ''Lookup failed: no route from SystemWhoisResolver'')]"
    by (simp only: auto_outcomes_def auto_resolvers_def list.map o1 o2 o3)
  have su: "successes (auto_outcomes example_lib ?pf ?self ''8.8.8.8'') = []"
    by (simp only: outs successes_simps)
  have fa: "failures (auto_outcomes example_lib ?pf ?self ''8.8.8.8'')
              = [''Lookup failed: no route from IPWhoisResolver'',
                 ''Lookup failed: no route from PythonWhoisResolver'',
                 ''Lookup failed: no route from SystemWhoisResolver'']"
    by (simp only: outs failures_simps exc_str.simps)
  note t = lookup_ip_all_failed [OF cr, of example_lib ?pf]
  from t au su have r: "fst (lookup_ip example_lib ?pf all_allowed ?self ''8.8.8.8'' empty_state)
                          = Inl (Exc ValueError ''All lookup methods failed for 8.8.8.8'')"
    by simp
  from t au su have "logged (snd (lookup_ip example_lib ?pf all_allowed ?self ''8.8.8.8''
                                    empty_state))
       = logged empty_state @ trying ''8.8.8.8'' auto_resolvers
         @ [LogError (''No joy for '' @ ''8.8.8.8'' @ '' - all methods failed: ''
                      @ join_strs ''; ''
                          (failures (auto_outcomes example_lib ?pf ?self ''8.8.8.8'')))]"
    by blast
  then have lg: "logged (snd (lookup_ip example_lib ?pf all_allowed ?self ''8.8.8.8''
                                    empty_state))
       = [LogInfo ''Trying IPWhoisResolver for 8.8.8.8'',
          LogInfo ''Trying PythonWhoisResolver for 8.8.8.8'',
          LogInfo ''Trying SystemWhoisResolver for 8.8.8.8'',
          LogError ''No joy for 8.8.8.8 - all methods failed: Lookup failed: no route from IPWhoisResolver; Lookup failed: no route from PythonWhoisResolver; Lookup failed: no route from SystemWhoisResolver'']"
    unfolding fa by (simp add: trying_def auto_resolvers_def empty_state_def)
  from cr au su r lg show ?thesis by simp
qed

text \<open>
  The claim as stated, that the message of the error joins the reasons of the failures,
  fails in the method \<^verbatim>\<open>auto\<close>: three resolvers fail, each with its own reason, and the
  message of the error that is raised holds none of them.
\<close>

theorem lookup_ip_error_omits_reasons:
  "failures (auto_outcomes example_lib (\<lambda>nm ip k. Inl (Exc OSError ''timed out''))
        \<lparr>lookup_method = ''auto'', use_cache = False, engine_rate_limit = 1,
           engine_max_retries = 2, cache = None\<rparr> ''8.8.8.8'')
     = [''Lookup failed: timed out'', ''Lookup failed: timed out'', ''Lookup failed: timed out'']
   \<and> fst (lookup_ip example_lib (\<lambda>nm ip k. Inl (Exc OSError ''timed out'')) all_allowed
        \<lparr>lookup_method = ''auto'', use_cache = False, engine_rate_limit = 1,
           engine_max_retries = 2, cache = None\<rparr> ''8.8.8.8'' empty_state)
       = Inl (Exc ValueError ''All lookup methods failed for 8.8.8.8'')
   \<and> \<not> is_substring ''timed out'' ''All lookup methods failed for 8.8.8.8''"
proof -
  let ?pf = "(\<lambda>nm ip k. Inl (Exc OSError ''timed out''))
             :: string \<Rightarrow> string \<Rightarrow> nat \<Rightarrow> pyexc + pydict"
  let ?self = "\<lparr>lookup_method = ''auto'', use_cache = False, engine_rate_limit = 1,
                 engine_max_retries = 2, cache = None\<rparr>"
  have v: "is_valid_ip ''8.8.8.8''" by code_simp
  have au: "lookup_method ?self = ''auto''" by simp
  have cr: "cached_record all_allowed ?self ''8.8.8.8'' empty_state = None"
    by (simp add: cached_record_def)
  have o: "resolver_outcome example_lib ?pf 2 ''8.8.8.8'' nm
              = Inl (Exc ValueError ''Lookup failed: timed out'')" for nm
    using resolver_outcome_exhausted
            [OF v, of 2 example_lib ?pf nm "Exc OSError ''timed out''"]
    by (simp add: all_fail_iff attempt_result_def)
  have outs: "map (resolver_outcome example_lib ?pf (engine_max_retries ?self) ''8.8.8.8'')
                auto_resolvers
                = [Inl (Exc ValueError ''Lookup failed: timed out''),
                   Inl (Exc ValueError ''Lookup failed: timed out''),
                   Inl (Exc ValueError ''Lookup failed: timed out'')]"
    by (simp add: auto_resolvers_def o)
  have fa: "failures (auto_outcomes example_lib ?pf ?self ''8.8.8.8'')
     = [''Lookup failed: timed out'', ''Lookup failed: timed out'', ''Lookup failed: timed out'']"
    unfolding auto_outcomes_def by (simp only: outs failures_simps exc_str.simps)
  from lookup_ip_miss_auto [OF au, of example_lib ?pf all_allowed "''8.8.8.8''" empty_state]
  have "fst (lookup_ip_miss example_lib ?pf all_allowed ?self ''8.8.8.8'' empty_state)
          = Inl (Exc ValueError ''All lookup methods failed for 8.8.8.8'')"
    unfolding outs by auto
  with lookup_ip_no_cache [OF cr, of example_lib ?pf]
  have r: "fst (lookup_ip example_lib ?pf all_allowed ?self ''8.8.8.8'' empty_state)
          = Inl (Exc ValueError ''All lookup methods failed for 8.8.8.8'')"
    by simp
  have ns: "\<not> is_substring ''timed out'' ''All lookup methods failed for 8.8.8.8''"
    by code_simp
  from fa r ns show ?thesis by blast
qed

section \<open>The engine: a batch of identities\<close>














end
